theory Spec2Isabelle
  imports
    Complex_Main
    "HOL-Library.Char_ord"
    "HOL-Library.List_Lexorder"
    "HOL-Library.Product_Lexorder"
    "HOL-Library.AList"
begin

unbundle bit_operations_syntax

section \<open>Strings and hashing\<close>

text \<open>
  A Python \<open>str\<close> is represented by its UTF-8 encoding: a \<open>string\<close> whose characters
  are the bytes that SQLite stores for a \<open>TEXT\<close> value and that \<open>.encode("utf-8")\<close>
  returns; every string read from the database has one.  Comparing such strings byte by
  byte is SQLite's \<open>BINARY\<close> collation and agrees with Python's comparison by code
  point.  An argument that may be \<open>None\<close> is a \<open>string option\<close>.
\<close>

definition or_empty :: "string option \<Rightarrow> string" where
  \<comment> \<open>\<open>s or ""\<close>\<close>
  "or_empty s = (case s of None \<Rightarrow> [] | Some t \<Rightarrow> t)"

definition is_ascii :: "string \<Rightarrow> bool" where
  "is_ascii s = list_all (\<lambda>c. (of_char c :: nat) < 128) s"

definition lower_char :: "char \<Rightarrow> char" where
  "lower_char c =
     (case map_of (zip ''ABCDEFGHIJKLMNOPQRSTUVWXYZ'' ''abcdefghijklmnopqrstuvwxyz'') c of
        Some d \<Rightarrow> d
      | None \<Rightarrow> c)"

text \<open>
  \<open>str.lower()\<close>.  On a string of ASCII characters it maps \<open>A\<close>..\<open>Z\<close> to \<open>a\<close>..\<open>z\<close>.
  On any other string it follows the case tables of the Python runtime's Unicode
  database, which are no part of the repository: they are the parameter \<open>U\<close>.
\<close>

definition str_lower :: "(string \<Rightarrow> string) \<Rightarrow> string \<Rightarrow> string" where
  "str_lower U s = (if is_ascii s then map lower_char s else U s)"

definition encode_utf8 :: "string \<Rightarrow> nat list" where
  "encode_utf8 s = map of_char s"

subsection \<open>SHA-256 (\<open>hashlib.sha256\<close>), on 32-bit words as naturals below \<open>2^32\<close>\<close>

type_synonym hstate = "nat \<times> nat \<times> nat \<times> nat \<times> nat \<times> nat \<times> nat \<times> nat"

definition add32 :: "nat \<Rightarrow> nat \<Rightarrow> nat" where
  "add32 x y = (x + y) mod 4294967296"

definition rotr :: "nat \<Rightarrow> nat \<Rightarrow> nat" where
  "rotr n x = x div 2 ^ n + (x mod 2 ^ n) * 2 ^ (32 - n)"

definition Ch :: "nat \<Rightarrow> nat \<Rightarrow> nat \<Rightarrow> nat" where
  "Ch x y z = (x AND y) XOR ((4294967295 - x) AND z)"

definition Maj :: "nat \<Rightarrow> nat \<Rightarrow> nat \<Rightarrow> nat" where
  "Maj x y z = (x AND y) XOR (x AND z) XOR (y AND z)"

definition bsig0 :: "nat \<Rightarrow> nat" where
  "bsig0 x = rotr 2 x XOR rotr 13 x XOR rotr 22 x"

definition bsig1 :: "nat \<Rightarrow> nat" where
  "bsig1 x = rotr 6 x XOR rotr 11 x XOR rotr 25 x"

definition ssig0 :: "nat \<Rightarrow> nat" where
  "ssig0 x = rotr 7 x XOR rotr 18 x XOR x div 2 ^ 3"

definition ssig1 :: "nat \<Rightarrow> nat" where
  "ssig1 x = rotr 17 x XOR rotr 19 x XOR x div 2 ^ 10"

text \<open>The round constants, eight rounds to a row.\<close>

definition sha256_K_rows :: "nat list list" where
  "sha256_K_rows =
   [[0x428a2f98, 0x71374491, 0xb5c0fbcf, 0xe9b5dba5, 0x3956c25b, 0x59f111f1, 0x923f82a4, 0xab1c5ed5],
    [0xd807aa98, 0x12835b01, 0x243185be, 0x550c7dc3, 0x72be5d74, 0x80deb1fe, 0x9bdc06a7, 0xc19bf174],
    [0xe49b69c1, 0xefbe4786, 0x0fc19dc6, 0x240ca1cc, 0x2de92c6f, 0x4a7484aa, 0x5cb0a9dc, 0x76f988da],
    [0x983e5152, 0xa831c66d, 0xb00327c8, 0xbf597fc7, 0xc6e00bf3, 0xd5a79147, 0x06ca6351, 0x14292967],
    [0x27b70a85, 0x2e1b2138, 0x4d2c6dfc, 0x53380d13, 0x650a7354, 0x766a0abb, 0x81c2c92e, 0x92722c85],
    [0xa2bfe8a1, 0xa81a664b, 0xc24b8b70, 0xc76c51a3, 0xd192e819, 0xd6990624, 0xf40e3585, 0x106aa070],
    [0x19a4c116, 0x1e376c08, 0x2748774c, 0x34b0bcb5, 0x391c0cb3, 0x4ed8aa4a, 0x5b9cca4f, 0x682e6ff3],
    [0x748f82ee, 0x78a5636f, 0x84c87814, 0x8cc70208, 0x90befffa, 0xa4506ceb, 0xbef9a3f7, 0xc67178f2]]"

definition sha256_K :: "nat list" where
  "sha256_K = concat sha256_K_rows"

definition sha256_H0 :: hstate where
  "sha256_H0 = (0x6a09e667, 0xbb67ae85, 0x3c6ef372, 0xa54ff53a,
                0x510e527f, 0x9b05688c, 0x1f83d9ab, 0x5be0cd19)"

definition be64 :: "nat \<Rightarrow> nat list" where
  "be64 n = map (\<lambda>i. n div 256 ^ i mod 256) [7, 6, 5, 4, 3, 2, 1, 0]"

definition sha256_pad :: "nat list \<Rightarrow> nat list" where
  "sha256_pad m =
     m @ [128] @ replicate ((64 - (length m + 9) mod 64) mod 64) 0 @ be64 (8 * length m)"

fun be_words :: "nat list \<Rightarrow> nat list" where
  "be_words (a # b # c # d # rest) =
     (a * 16777216 + b * 65536 + c * 256 + d) # be_words rest"
| "be_words _ = []"

text \<open>
  The message schedule is kept as a window of sixteen words: its head is the word of the
  current round, and the word sixteen rounds ahead is appended.
\<close>

definition next_w :: "nat list \<Rightarrow> nat" where
  "next_w w = add32 (add32 (add32 (ssig1 (w ! 14)) (w ! 9)) (ssig0 (w ! 1))) (w ! 0)"

fun sha_round :: "hstate \<Rightarrow> nat \<Rightarrow> nat \<Rightarrow> hstate" where
  "sha_round (a, b, c, d, e, f, g, h) k w =
     (let t1 = add32 (add32 (add32 (add32 h (bsig1 e)) (Ch e f g)) k) w;
          t2 = add32 (bsig0 a) (Maj a b c)
      in (add32 t1 t2, a, b, c, add32 d t1, e, f, g))"

fun rounds :: "nat list \<Rightarrow> nat list \<Rightarrow> hstate \<Rightarrow> hstate" where
  "rounds [] w s = s"
| "rounds (k # ks) w s = rounds ks (tl w @ [next_w w]) (sha_round s k (hd w))"

fun hadd :: "hstate \<Rightarrow> hstate \<Rightarrow> hstate" where
  "hadd (a, b, c, d, e, f, g, h) (a', b', c', d', e', f', g', h') =
     (add32 a a', add32 b b', add32 c c', add32 d d',
      add32 e e', add32 f f', add32 g g', add32 h h')"

definition compress :: "hstate \<Rightarrow> nat list \<Rightarrow> hstate" where
  "compress H blk = hadd H (rounds sha256_K blk H)"

fun sha_blocks :: "hstate \<Rightarrow> nat list \<Rightarrow> hstate" where
  "sha_blocks H ws =
     (if length ws < 16 then H else sha_blocks (compress H (take 16 ws)) (drop 16 ws))"

definition sha256 :: "nat list \<Rightarrow> hstate" where
  "sha256 m = sha_blocks sha256_H0 (be_words (sha256_pad m))"

definition hex_digit :: "nat \<Rightarrow> char" where
  "hex_digit n = ''0123456789abcdef'' ! n"

definition hex32 :: "nat \<Rightarrow> string" where
  "hex32 w = map (\<lambda>i. hex_digit (w div 16 ^ i mod 16)) [7, 6, 5, 4, 3, 2, 1, 0]"

fun hexdigest :: "hstate \<Rightarrow> string" where
  "hexdigest (a, b, c, d, e, f, g, h) =
     hex32 a @ hex32 b @ hex32 c @ hex32 d @ hex32 e @ hex32 f @ hex32 g @ hex32 h"

section \<open>Farm-name anonymization\<close>

text \<open>
  \<^verbatim>\<open>
  def _sha256_lower(s):
      return hashlib.sha256((s or "").lower().encode("utf-8")).hexdigest()

  def anonymize_farm_name(actual_name):
      h = _sha256_lower(actual_name or "")
      return PROTECTED_HASH_TO_ALIAS.get(h, actual_name or "")
  \<close>
\<close>

definition PROTECTED_HASH_TO_ALIAS :: "(string \<times> string) list" where
  "PROTECTED_HASH_TO_ALIAS =
     [(''82b7a67e7bd24e71bbaf80e360039b7fed7805b11a1b6f35c3926c9c9812c9fd'', ''K-farm''),
      (''687d0aa07ed9519f1a55d848b562e29044a742a7d6daa44a273735ccb4fb8591'', ''J-farm'')]"

definition sha256_lower :: "(string \<Rightarrow> string) \<Rightarrow> string option \<Rightarrow> string" where
  "sha256_lower U s = hexdigest (sha256 (encode_utf8 (str_lower U (or_empty s))))"

definition anonymize_farm_name :: "(string \<Rightarrow> string) \<Rightarrow> string option \<Rightarrow> string" where
  "anonymize_farm_name U actual_name =
     (let h = sha256_lower U (Some (or_empty actual_name))
      in case map_of PROTECTED_HASH_TO_ALIAS h of
           Some alias \<Rightarrow> alias
         | None \<Rightarrow> or_empty actual_name)"

section \<open>The tables\<close>

text \<open>
  The database read through the connection holds the two tables \<open>animals\<close> and
  \<open>milk_yield\<close>.  A calendar date is the triple (year, month, day).  \<open>birth_date\<close> and
  \<open>farm_name\<close> may be \<open>NULL\<close>;
  \<open>record_date\<close>, \<open>record_year\<close> and \<open>yield_value\<close> are not null.  A \<open>REAL\<close> value is
  the rational number it denotes, and sums, quotients and roundings are exact: this is
  what the floating-point computation returns as long as no intermediate result has to
  be rounded to fit a double, as in the examples of the specification.
\<close>

type_synonym date = "nat \<times> nat \<times> nat"

record animal =
  ear_tag :: string
  birth_date :: "date option"
  farm_name :: "string option"

record milk =
  m_ear_tag :: string
  record_date :: date
  record_year :: int
  yield_value :: rat

record database =
  animals :: "animal list"
  milk_yield :: "milk list"

section \<open>The alias directory\<close>

subsection \<open>Decimal formatting of the suffix counter\<close>

definition digit_char :: "nat \<Rightarrow> char" where
  "digit_char n = ''0123456789'' ! n"

fun str_nat :: "nat \<Rightarrow> string" where
  "str_nat n = (if n < 10 then [digit_char n] else str_nat (n div 10) @ [digit_char (n mod 10)])"

declare str_nat.simps [simp del]

definition digit_val :: "char \<Rightarrow> nat" where
  "digit_val c = of_char c - 48"

definition nat_of_str :: "string \<Rightarrow> nat" where
  "nat_of_str s = foldl (\<lambda>a c. 10 * a + digit_val c) 0 s"

lemma digit_val_char: "d < 10 \<Longrightarrow> digit_val (digit_char d) = d"
proof -
  assume "d < 10"
  then have "d = 0 \<or> d = 1 \<or> d = 2 \<or> d = 3 \<or> d = 4
      \<or> d = 5 \<or> d = 6 \<or> d = 7 \<or> d = 8 \<or> d = 9"
    by presburger
  then show ?thesis
    by (elim disjE) (simp_all add: digit_val_def digit_char_def)
qed

lemma nat_of_str_str_nat: "nat_of_str (str_nat n) = n"
proof (induction n rule: str_nat.induct)
  case (1 n)
  show ?case
  proof (cases "n < 10")
    case True
    then show ?thesis
      by (simp add: str_nat.simps [of n] nat_of_str_def digit_val_char)
  next
    case False
    with 1 have "nat_of_str (str_nat (n div 10)) = n div 10" by simp
    with False show ?thesis
      by (simp add: str_nat.simps [of n] nat_of_str_def digit_val_char)
  qed
qed

lemma str_nat_inj: "str_nat i = str_nat j \<Longrightarrow> i = j"
  by (metis nat_of_str_str_nat)

definition suffixed :: "string \<Rightarrow> nat \<Rightarrow> string" where
  \<comment> \<open>\<open>f"{base}-{i}"\<close>\<close>
  "suffixed base i = base @ ''-'' @ str_nat i"

lemma suffixed_inj: "suffixed base i = suffixed base j \<Longrightarrow> i = j"
  by (simp add: suffixed_def str_nat_inj)

lemma finite_suffixes: "finite {j. suffixed base j \<in> K}" if "finite K"
proof -
  have "inj (suffixed base)" by (rule injI) (rule suffixed_inj)
  then have "finite (suffixed base -` K)" using that by (rule finite_vimageI [rotated])
  then show ?thesis by (simp add: vimage_def)
qed

text \<open>
  A dictionary from strings to strings is the list of its items in insertion order;
  \<open>map_of\<close> looks a key up and \<open>AList.update\<close> assigns to one.  \<open>suffix_loop\<close> is the
  \<open>while\<close> loop of the build, on the variables \<open>alias\<close> and \<open>i\<close>.  It terminates because
  the aliases \<open>base-i\<close> are pairwise distinct and the dictionary is finite.
\<close>

type_synonym dict = "(string \<times> string) list"

definition taken :: "dict \<Rightarrow> string \<Rightarrow> string \<Rightarrow> bool" where
  \<comment> \<open>\<open>alias in alias_to_internal and alias_to_internal[alias] != actual\<close>\<close>
  "taken d actual alias = (case map_of d alias of None \<Rightarrow> False | Some r \<Rightarrow> r \<noteq> actual)"

function suffix_loop :: "dict \<Rightarrow> string \<Rightarrow> string \<Rightarrow> string \<Rightarrow> nat \<Rightarrow> string" where
  "suffix_loop d actual base alias i =
     (if taken d actual alias then suffix_loop d actual base (suffixed base i) (i + 1) else alias)"
  by pat_completeness auto

termination
proof (relation "measure (\<lambda>(d, actual, base, alias, i).
         2 * card {j. i \<le> j \<and> suffixed base j \<in> fst ` set d}
         + (if alias \<in> fst ` set d then 1 else 0))", goal_cases)
  case 1
  show ?case by simp
next
  case (2 d actual base a i)
  let ?K = "fst ` set d"
  let ?S = "\<lambda>i. {j. i \<le> j \<and> suffixed base j \<in> ?K}"
  have fin: "finite (?S i)"
    using finite_suffixes [of ?K base] by simp
  from 2 have al: "a \<in> ?K"
    by (auto simp: taken_def split: option.splits dest: map_of_SomeD intro: rev_image_eqI)
  show ?case
  proof (cases "suffixed base i \<in> ?K")
    case True
    have "?S (i + 1) = ?S i - {i}" by (auto simp: Suc_le_eq)
    moreover have "i \<in> ?S i" using True by simp
    ultimately have "card (?S (i + 1)) < card (?S i)"
      using card_Diff1_less [OF fin, of i] by simp
    then show ?thesis using al True by simp
  next
    case False
    have "?S (i + 1) = ?S i"
      using False by (auto simp: Suc_le_eq less_le)
    then show ?thesis using al False by simp
  qed
qed

declare suffix_loop.simps [simp del]

subsection \<open>Building the two dictionaries\<close>

text \<open>
  \<open>farm_names\<close> is the query
  \<open>SELECT DISTINCT farm_name FROM animals WHERE COALESCE(farm_name,'')<>'' ORDER BY farm_name\<close>,
  and \<open>assign_alias\<close> is one pass of the body of the loop over its result:
  \<^verbatim>\<open>
  for actual in df["farm_name"].tolist():
      alias = anonymize_farm_name(actual)
      base = alias if alias else ""
      i = 2
      while alias in alias_to_internal and alias_to_internal[alias] != actual:
          alias = f"{base}-{i}"
          i += 1
      alias_to_internal[alias] = actual
      internal_to_alias[actual] = alias
  aliases_sorted = sorted(alias_to_internal.keys(), key=lambda x: x.lower())
  \<close>
\<close>

definition farm_names :: "database \<Rightarrow> string list" where
  "farm_names db =
     sort (remdups (filter (\<lambda>n. n \<noteq> []) (map (\<lambda>a. or_empty (farm_name a)) (animals db))))"

definition assign_alias :: "(string \<Rightarrow> string) \<Rightarrow> dict \<times> dict \<Rightarrow> string \<Rightarrow> dict \<times> dict" where
  "assign_alias U maps actual =
     (let (alias_to_internal, internal_to_alias) = maps;
          alias = anonymize_farm_name U (Some actual);
          base = (if alias \<noteq> [] then alias else []);
          alias = suffix_loop alias_to_internal actual base alias 2
      in (AList.update alias actual alias_to_internal,
          AList.update actual alias internal_to_alias))"

definition build_farm_alias_maps ::
  "(string \<Rightarrow> string) \<Rightarrow> database \<Rightarrow> string list \<times> dict \<times> dict" where
  "build_farm_alias_maps U db =
     (let (alias_to_internal, internal_to_alias) =
            foldl (assign_alias U) ([], []) (farm_names db);
          aliases_sorted = sort_key (str_lower U) (map fst alias_to_internal)
      in (aliases_sorted, alias_to_internal, internal_to_alias))"

text \<open>
  Two notions for the proofs: the alias that one pass of the loop body chooses for a
  name, and the invariant of the loop.
\<close>

definition chosen_alias :: "(string \<Rightarrow> string) \<Rightarrow> dict \<Rightarrow> string \<Rightarrow> string" where
  "chosen_alias U d actual =
     suffix_loop d actual (anonymize_farm_name U (Some actual)) (anonymize_farm_name U (Some actual)) 2"

definition inverse_maps :: "string list \<Rightarrow> dict \<times> dict \<Rightarrow> bool" where
  "inverse_maps names maps =
     (case maps of (a2i, i2a) \<Rightarrow>
        distinct (map fst a2i) \<and> distinct (map fst i2a) \<and> fst ` set i2a = set names \<and>
        (\<forall>r a. (map_of i2a r = Some a) = (map_of a2i a = Some r)))"

section \<open>Dates\<close>

text \<open>
  A calendar date is the triple (year, month, day).  The \<open>DATE\<close> columns hold ISO-8601
  text \<open>YYYY-MM-DD\<close>, and \<open>date.isoformat()\<close> produces the same text, so comparing two
  dates as SQLite compares their text is comparing the triples lexicographically.
  For a date of the calendar, \<open>strftime('%Y-%m', d)\<close> is the pair (year, month), ordered
  the same way.

  \<open>ymd2ord\<close> and \<open>ord2ymd\<close> follow the functions of these names in Python's \<open>datetime\<close>
  module; \<open>date_sub_days d k\<close> is \<open>d - timedelta(days=k)\<close>, which raises
  \<open>OverflowError\<close> when the result leaves the years 1 to 9999.  The clock's
  \<open>date.today()\<close> is a date of the calendar.  A record date is the text of the column,
  which SQLite does not check: \<open>valid_date\<close>, after \<open>_check_date_fields\<close> of the same
  module, says that the triple is a date of the calendar.
\<close>

type_synonym month_key = "nat \<times> nat"

datatype py_error = OverflowError

definition month_of :: "date \<Rightarrow> month_key" where
  "month_of d = (case d of (y, m, _) \<Rightarrow> (y, m))"

definition is_leap :: "nat \<Rightarrow> bool" where
  "is_leap year = (year mod 4 = 0 \<and> (year mod 100 \<noteq> 0 \<or> year mod 400 = 0))"

definition days_before_year :: "nat \<Rightarrow> int" where
  "days_before_year year = (let y = int year - 1 in y * 365 + y div 4 - y div 100 + y div 400)"

definition DAYS_IN_MONTH :: "int list" where
  "DAYS_IN_MONTH = [-1, 31, 28, 31, 30, 31, 30, 31, 31, 30, 31, 30, 31]"

definition DAYS_BEFORE_MONTH :: "int list" where
  "DAYS_BEFORE_MONTH = [-1, 0, 31, 59, 90, 120, 151, 181, 212, 243, 273, 304, 334]"

definition days_before_month :: "nat \<Rightarrow> nat \<Rightarrow> int" where
  "days_before_month year month =
     DAYS_BEFORE_MONTH ! month + (if month > 2 \<and> is_leap year then 1 else 0)"

definition ymd2ord :: "date \<Rightarrow> int" where
  "ymd2ord d =
     (case d of (year, month, day) \<Rightarrow>
        days_before_year year + days_before_month year month + int day)"

definition ord2ymd :: "int \<Rightarrow> date" where
  "ord2ymd n0 =
     (let n = n0 - 1;
          n400 = n div 146097; n = n mod 146097;
          year = n400 * 400 + 1;
          n100 = n div 36524; n = n mod 36524;
          n4 = n div 1461; n = n mod 1461;
          n1 = n div 365; n = n mod 365;
          year = year + n100 * 100 + n4 * 4 + n1
      in if n1 = 4 \<or> n100 = 4 then (nat (year - 1), 12, 31)
         else
           (let leapyear = (n1 = 3 \<and> (n4 \<noteq> 24 \<or> n100 = 3));
                month = (n + 50) div 32;
                preceding = DAYS_BEFORE_MONTH ! nat month
                            + (if month > 2 \<and> leapyear then 1 else 0);
                month' = (if preceding > n then month - 1 else month);
                preceding' = (if preceding > n
                              then preceding - (DAYS_IN_MONTH ! nat month'
                                                + (if month' = 2 \<and> leapyear then 1 else 0))
                              else preceding)
            in (nat year, nat month', nat (n - preceding' + 1))))"

definition date_sub_days :: "date \<Rightarrow> int \<Rightarrow> py_error + date" where
  "date_sub_days d k =
     (let ordinal = ymd2ord d - k
      in if 0 < ordinal \<and> ordinal \<le> 3652059 then Inr (ord2ymd ordinal) else Inl OverflowError)"

definition days_in_month :: "nat \<Rightarrow> nat \<Rightarrow> int" where
  "days_in_month year month =
     (if month = 2 \<and> is_leap year then 29 else DAYS_IN_MONTH ! month)"

definition valid_date :: "date \<Rightarrow> bool" where
  "valid_date d =
     (case d of (year, month, day) \<Rightarrow>
        1 \<le> year \<and> year \<le> 9999 \<and> 1 \<le> month \<and> month \<le> 12
        \<and> 1 \<le> day \<and> int day \<le> days_in_month year month)"

text \<open>
  \<open>to_datetime bounds v\<close> is \<open>pd.to_datetime(v).date()\<close> inside the \<open>try\<close> block of
  \<open>animal_yield_summary\<close>; \<open>None\<close> is any exception.  \<open>pd.to_datetime(None)\<close> has no
  \<open>.date()\<close>; a text that is not a date of the calendar does not parse; and a date that
  the timestamps of pandas cannot hold raises \<open>OutOfBoundsDatetime\<close>.  The first and the
  last day that a timestamp holds depend on the unit of the timestamps, which is not the
  same in every version of pandas, and are the parameter \<open>bounds\<close>.  \<open>timestamp_ns\<close> are
  the bounds of 64-bit nanoseconds (\<open>Timestamp.min\<close> is 1677-09-21 00:12:43.145224193,
  \<open>Timestamp.max\<close> is 2262-04-11 23:47:16.854775807), the unit of pandas 1 and 2.
\<close>

definition to_datetime :: "date \<times> date \<Rightarrow> date option \<Rightarrow> date option" where
  "to_datetime bounds v =
     (case v of
        None \<Rightarrow> None
      | Some d \<Rightarrow> if valid_date d \<and> fst bounds \<le> d \<and> d \<le> snd bounds then Some d else None)"

definition timestamp_ns :: "date \<times> date" where
  "timestamp_ns = ((1677, 9, 22), (2262, 4, 11))"

lemmas date_eval = date_sub_days_def ymd2ord_def ord2ymd_def days_before_year_def
  days_before_month_def DAYS_BEFORE_MONTH_def DAYS_IN_MONTH_def is_leap_def Let_def
  to_datetime_def valid_date_def days_in_month_def timestamp_ns_def

section \<open>SQL aggregates and pandas operations\<close>

text \<open>
  An SQL aggregate over no rows is \<open>NULL\<close> (\<open>None\<close>), except \<open>COUNT\<close>.
  \<open>group_by key rows\<close> is \<open>GROUP BY key ORDER BY key\<close>: the distinct keys in ascending
  order, each with its rows.  SQLite's \<open>ROUND(x, 1)\<close> rounds halves away from zero;
  pandas' \<open>round\<close> is NumPy's and rounds halves to the even neighbour (\<open>rint\<close>).  A pandas
  division by zero raises nothing and yields a non-finite value, here \<open>None\<close>.
  \<open>merge_left\<close> is \<open>left.merge(right, on="month", how="left")\<close> and \<open>fillna0\<close> the
  \<open>.fillna(0)\<close> with the \<open>astype(int)\<close> of the sessions column that follow it.
\<close>

definition sql_sum :: "rat list \<Rightarrow> rat option" where
  "sql_sum xs = (if xs = [] then None else Some (sum_list xs))"

definition sql_avg :: "rat list \<Rightarrow> rat option" where
  "sql_avg xs = (if xs = [] then None else Some (sum_list xs / of_nat (length xs)))"

fun sql_min :: "'a::linorder list \<Rightarrow> 'a option" where
  "sql_min [] = None"
| "sql_min (x # xs) = Some (fold min xs x)"

fun sql_max :: "'a::linorder list \<Rightarrow> 'a option" where
  "sql_max [] = None"
| "sql_max (x # xs) = Some (fold max xs x)"

definition coalesce0 :: "rat option \<Rightarrow> rat" where
  "coalesce0 v = (case v of None \<Rightarrow> 0 | Some x \<Rightarrow> x)"

definition count_distinct :: "'a list \<Rightarrow> nat" where
  "count_distinct xs = length (remdups xs)"

definition group_by :: "('r \<Rightarrow> 'k::linorder) \<Rightarrow> 'r list \<Rightarrow> ('k \<times> 'r list) list" where
  "group_by key rows =
     map (\<lambda>k. (k, filter (\<lambda>r. key r = k) rows)) (sort (remdups (map key rows)))"

definition sql_round1 :: "rat \<Rightarrow> rat" where
  "sql_round1 x =
     (if 0 \<le> x then of_int \<lfloor>x * 10 + 1 / 2\<rfloor> / 10 else - (of_int \<lfloor>- x * 10 + 1 / 2\<rfloor> / 10))"

definition rint :: "rat \<Rightarrow> int" where
  "rint x =
     (let f = \<lfloor>x\<rfloor>; r = x - of_int f
      in if r < 1 / 2 then f else if 1 / 2 < r then f + 1 else if even f then f else f + 1)"

definition pd_round1 :: "rat \<Rightarrow> rat" where
  "pd_round1 x = of_int (rint (x * 10)) / 10"

definition pd_div :: "rat \<Rightarrow> nat \<Rightarrow> rat option" where
  "pd_div x n = (if n = 0 then None else Some (x / of_nat n))"



definition merge_left ::
  "(month_key \<times> int) list \<Rightarrow> (month_key \<times> nat) list \<Rightarrow> (month_key \<times> int \<times> nat option) list" where
  "merge_left left right =
     concat (map (\<lambda>(k, l).
        case filter (\<lambda>(k', s). k' = k) right of
          [] \<Rightarrow> [(k, l, None)]
        | ms \<Rightarrow> map (\<lambda>(k', s). (k, l, Some s)) ms) left)"

definition fillna0 :: "(month_key \<times> int \<times> nat option) list \<Rightarrow> (month_key \<times> int \<times> int) list" where
  "fillna0 df = map (\<lambda>(k, l, s). (k, l, case s of None \<Rightarrow> 0 | Some n \<Rightarrow> int n)) df"

section \<open>The yield aggregator\<close>

text \<open>
  Both summaries read the clock: \<open>today\<close> is the value of \<open>date.today()\<close>.  The two
  tables read through the connection are the argument \<open>db\<close>.  \<open>farm_records\<close> is the join
  \<open>milk_yield m JOIN animals a ON m.ear_tag = a.ear_tag WHERE a.farm_name = ?\<close> and
  \<open>animal_records\<close> is \<open>milk_yield WHERE ear_tag = ?\<close>; \<open>since_filter\<close> adds
  \<open>record_date >= ?\<close>.  \<open>farm_years\<close> and \<open>animal_years\<close> are the two queries grouped by
  \<open>record_year\<close>, \<open>farm_avg_daily\<close> and \<open>animal_avg_daily\<close> the column \<open>avg_daily\<close> added
  to their frames.  \<open>round_liters\<close> and \<open>merge_sessions\<close> are the two guarded updates
  \<open>if not df_12mo.empty: ...\<close> of the monthly frame.  A failed \<open>try\<close> block (one
  of the two bounds is \<open>NULL\<close> or does not parse) leaves \<open>duration = days\<close>.
\<close>

definition farm_records :: "database \<Rightarrow> string \<Rightarrow> milk list" where
  "farm_records db name =
     concat (map (\<lambda>m. map (\<lambda>a. m)
        (filter (\<lambda>a. m_ear_tag m = ear_tag a \<and> farm_name a = Some name) (animals db)))
        (milk_yield db))"

definition animal_records :: "database \<Rightarrow> string \<Rightarrow> milk list" where
  "animal_records db tag = filter (\<lambda>m. m_ear_tag m = tag) (milk_yield db)"

definition since_filter :: "date \<Rightarrow> milk list \<Rightarrow> milk list" where
  "since_filter since rows = filter (\<lambda>m. since \<le> record_date m) rows"

definition monthly_liters :: "milk list \<Rightarrow> (month_key \<times> rat) list" where
  "monthly_liters rows =
     map (\<lambda>(k, g). (k, sum_list (map yield_value g))) (group_by (\<lambda>m. month_of (record_date m)) rows)"

definition monthly_cows :: "milk list \<Rightarrow> (month_key \<times> nat) list" where
  "monthly_cows rows =
     map (\<lambda>(k, g). (k, count_distinct (map m_ear_tag g))) (group_by (\<lambda>m. month_of (record_date m)) rows)"

definition monthly_count :: "milk list \<Rightarrow> (month_key \<times> nat) list" where
  "monthly_count rows =
     map (\<lambda>(k, g). (k, length g)) (group_by (\<lambda>m. month_of (record_date m)) rows)"

definition round_liters :: "(month_key \<times> rat) list \<Rightarrow> (month_key \<times> int) list" where
  "round_liters df_12mo = (if df_12mo \<noteq> [] then map (\<lambda>(k, l). (k, rint l)) df_12mo else [])"

definition merge_sessions ::
  "(month_key \<times> int) list \<Rightarrow> (month_key \<times> nat) list \<Rightarrow> (month_key \<times> int \<times> int) list" where
  "merge_sessions df_12mo df_count =
     (if df_12mo \<noteq> [] then fillna0 (merge_left df_12mo df_count) else [])"

definition farm_years :: "milk list \<Rightarrow> (int \<times> rat \<times> nat \<times> nat) list" where
  "farm_years rows =
     map (\<lambda>(y, g). (y, sum_list (map yield_value g),
                      count_distinct (map record_date g),
                      count_distinct (map m_ear_tag g)))
         (group_by record_year rows)"

definition farm_avg_daily ::
  "(int \<times> rat \<times> nat \<times> nat) list \<Rightarrow> (int \<times> rat \<times> nat \<times> nat \<times> rat option) list" where
  "farm_avg_daily df_year =
     (if df_year \<noteq> []
      then map (\<lambda>(y, liters, days, cows).
                  (y, liters, days, cows, map_option pd_round1 (pd_div liters days))) df_year
      else [])"

definition animal_years :: "milk list \<Rightarrow> (int \<times> rat \<times> nat) list" where
  "animal_years rows =
     map (\<lambda>(y, g). (y, sum_list (map yield_value g), count_distinct (map record_date g)))
         (group_by record_year rows)"

definition animal_avg_daily ::
  "(int \<times> rat \<times> nat) list \<Rightarrow> (int \<times> rat \<times> nat \<times> rat option) list" where
  "animal_avg_daily df_year =
     (if df_year \<noteq> []
      then map (\<lambda>(y, liters, days).
                  (y, liters, days, map_option pd_round1 (pd_div liters days))) df_year
      else [])"

definition farm_yield_summary ::
  "date \<Rightarrow> database \<Rightarrow> string \<Rightarrow>
   py_error + rat \<times> nat \<times> (int \<times> rat \<times> nat \<times> nat \<times> rat option) list \<times> (month_key \<times> int \<times> int) list" where
  "farm_yield_summary today db internal_farm_name =
     (let rows = farm_records db internal_farm_name;
          total = coalesce0 (sql_sum (map yield_value rows));
          days = count_distinct (map record_date rows);
          df_year = farm_avg_daily (farm_years rows)
      in case date_sub_days today 365 of
           Inl e \<Rightarrow> Inl e
         | Inr since \<Rightarrow>
             (let df_12mo = round_liters (monthly_liters (since_filter since rows));
                  df_count = monthly_cows (since_filter since rows);
                  df_12mo = merge_sessions df_12mo df_count
              in Inr (total, days, df_year, df_12mo)))"

definition animal_yield_summary ::
  "date \<times> date \<Rightarrow> date \<Rightarrow> database \<Rightarrow> string \<Rightarrow>
   py_error + rat \<times> nat \<times> int \<times> (int \<times> rat \<times> nat \<times> rat option) list
              \<times> (month_key \<times> int \<times> int) list \<times> (rat option \<times> rat option \<times> rat option)" where
  "animal_yield_summary bounds today db tag =
     (let rows = animal_records db tag;
          total = coalesce0 (sql_sum (map yield_value rows));
          days = count_distinct (map record_date rows);
          rng = (sql_min (map record_date rows), sql_max (map record_date rows));
          duration = (case (to_datetime bounds (fst rng), to_datetime bounds (snd rng)) of
                        (Some d0, Some d1) \<Rightarrow> ymd2ord d1 - ymd2ord d0 + 1
                      | _ \<Rightarrow> int days);
          df_year = animal_avg_daily (animal_years rows)
      in case date_sub_days today 365 of
           Inl e \<Rightarrow> Inl e
         | Inr since \<Rightarrow>
             (let df_12mo = round_liters (monthly_liters (since_filter since rows));
                  df_sessions = monthly_count (since_filter since rows);
                  df_12mo = merge_sessions df_12mo df_sessions;
                  stats = (map_option sql_round1 (sql_avg (map yield_value rows)),
                           sql_max (map yield_value rows),
                           sql_min (map yield_value rows))
              in Inr (total, days, duration, df_year, df_12mo, stats)))"

section \<open>Example databases\<close>

text \<open>
  Six animals: four on three farms whose names all anonymize to \<open>K-farm\<close>, one with no
  farm and one with an empty farm name.
\<close>

definition db0 :: database where
  "db0 = \<lparr>animals =
     [\<lparr>ear_tag = ''A1'', birth_date = None, farm_name = Some ''Magpantay''\<rparr>,
      \<lparr>ear_tag = ''A2'', birth_date = None, farm_name = Some ''K-farm''\<rparr>,
      \<lparr>ear_tag = ''A3'', birth_date = None, farm_name = None\<rparr>,
      \<lparr>ear_tag = ''A4'', birth_date = None, farm_name = Some ''MAGPANTAY''\<rparr>,
      \<lparr>ear_tag = ''A5'', birth_date = None, farm_name = Some []\<rparr>,
      \<lparr>ear_tag = ''A6'', birth_date = None, farm_name = Some ''K-farm''\<rparr>],
     milk_yield = []\<rparr>"

text \<open>
  The two examples of the specification: a farm with two animals and one record each on
  the same day, and an animal with two records two days apart.
\<close>

definition db4 :: database where
  "db4 = \<lparr>animals = [\<lparr>ear_tag = ''A'', birth_date = None, farm_name = Some ''F''\<rparr>,
                       \<lparr>ear_tag = ''B'', birth_date = None, farm_name = Some ''F''\<rparr>],
           milk_yield = [\<lparr>m_ear_tag = ''A'', record_date = (2024, 1, 15), record_year = 2024, yield_value = 10\<rparr>,
                         \<lparr>m_ear_tag = ''B'', record_date = (2024, 1, 15), record_year = 2024, yield_value = 25 / 2\<rparr>]\<rparr>"

definition db9 :: database where
  "db9 = \<lparr>animals = [\<lparr>ear_tag = ''A'', birth_date = None, farm_name = Some ''F''\<rparr>],
           milk_yield = [\<lparr>m_ear_tag = ''A'', record_date = (2023, 6, 1), record_year = 2023, yield_value = 5\<rparr>,
                         \<lparr>m_ear_tag = ''A'', record_date = (2023, 6, 3), record_year = 2023, yield_value = 7\<rparr>]\<rparr>"


text \<open>
  The animal of the second example with other record dates: two days of the year 2300,
  which 64-bit nanosecond timestamps do not reach, and a text that is no date of the
  calendar, 2024-02-30, followed by 2024-03-05.
\<close>

definition db9_far :: database where
  "db9_far = \<lparr>animals = [\<lparr>ear_tag = ''A'', birth_date = None, farm_name = Some ''F''\<rparr>],
           milk_yield = [\<lparr>m_ear_tag = ''A'', record_date = (2300, 1, 2), record_year = 2300, yield_value = 5\<rparr>,
                         \<lparr>m_ear_tag = ''A'', record_date = (2300, 1, 4), record_year = 2300, yield_value = 7\<rparr>]\<rparr>"

definition db9_feb30 :: database where
  "db9_feb30 = \<lparr>animals = [\<lparr>ear_tag = ''A'', birth_date = None, farm_name = Some ''F''\<rparr>],
           milk_yield = [\<lparr>m_ear_tag = ''A'', record_date = (2024, 2, 30), record_year = 2024, yield_value = 5\<rparr>,
                         \<lparr>m_ear_tag = ''A'', record_date = (2024, 3, 5), record_year = 2024, yield_value = 7\<rparr>]\<rparr>"


text \<open>
  The first example in general: a farm \<open>f\<close> with two animals \<open>t1\<close> and \<open>t2\<close>, each with one
  record on 2024-01-15, of 10.0 and 12.5 liters.
\<close>

definition two_cow_db :: "string \<Rightarrow> string \<Rightarrow> string \<Rightarrow> database" where
  "two_cow_db f t1 t2 =
     \<lparr>animals = [\<lparr>ear_tag = t1, birth_date = None, farm_name = Some f\<rparr>,
                 \<lparr>ear_tag = t2, birth_date = None, farm_name = Some f\<rparr>],
      milk_yield = [\<lparr>m_ear_tag = t1, record_date = (2024, 1, 15), record_year = 2024, yield_value = 10\<rparr>,
                    \<lparr>m_ear_tag = t2, record_date = (2024, 1, 15), record_year = 2024, yield_value = 25 / 2\<rparr>]\<rparr>"

section \<open>Evaluating the hash\<close>

lemma replicate_numeral_unfold: "replicate (numeral k) x = x # replicate (pred_numeral k) x"
  by (simp add: numeral_eq_Suc)

lemmas sha_eval = sha256_def sha256_pad_def encode_utf8_def be64_def replicate_numeral_unfold
  compress_def sha256_K_def sha256_K_rows_def sha256_H0_def next_w_def add32_def
  rotr_def ssig1_def ssig0_def bsig0_def bsig1_def Ch_def Maj_def Let_def
  hex32_def hex_digit_def

lemma digest_magpantay:
  "hexdigest (sha256 (encode_utf8 ''magpantay'')) =
     ''82b7a67e7bd24e71bbaf80e360039b7fed7805b11a1b6f35c3926c9c9812c9fd''"
  by (simp add: sha_eval)

lemma digest_samabaco:
  "hexdigest (sha256 (encode_utf8 ''samabaco'')) =
     ''687d0aa07ed9519f1a55d848b562e29044a742a7d6daa44a273735ccb4fb8591''"
  by (simp add: sha_eval)

lemma digest_k_farm:
  "hexdigest (sha256 (encode_utf8 ''k-farm'')) =
     ''8ea48d6ad1431455e583e2c2bed6455efb6c069733c294ad38f438bb29ac49c9''"
  by (simp add: sha_eval)

lemma digest_j_farm:
  "hexdigest (sha256 (encode_utf8 ''j-farm'')) =
     ''27f48ae7a211e955552514eb062507c76847d4f7ff5bf71a79bb840d88f42b2c''"
  by (simp add: sha_eval)

lemma digest_empty:
  "hexdigest (sha256 (encode_utf8 [])) =
     ''e3b0c44298fc1c149afbf4c8996fb92427ae41e4649b934ca495991b7852b855''"
  by (simp add: sha_eval)

lemma lower_char_ascii: "(of_char (lower_char c) :: nat) < 128 \<Longrightarrow> (of_char c :: nat) < 128"
  by (auto simp: lower_char_def split: if_splits)

lemma is_ascii_lower: "is_ascii (map lower_char s) \<Longrightarrow> is_ascii s"
  by (induction s) (auto simp: is_ascii_def dest: lower_char_ascii)

lemma str_lower_casing: "map lower_char s = t \<Longrightarrow> is_ascii t \<Longrightarrow> str_lower U s = t"
  using is_ascii_lower by (auto simp: str_lower_def)

lemma anonymize_protected_K:
  "map lower_char s = ''magpantay'' \<Longrightarrow> anonymize_farm_name U (Some s) = ''K-farm''"
  using str_lower_casing [of s "''magpantay''" U]
  by (simp add: anonymize_farm_name_def sha256_lower_def or_empty_def is_ascii_def
      digest_magpantay PROTECTED_HASH_TO_ALIAS_def)

lemma anonymize_protected_J:
  "map lower_char s = ''samabaco'' \<Longrightarrow> anonymize_farm_name U (Some s) = ''J-farm''"
  using str_lower_casing [of s "''samabaco''" U]
  by (simp add: anonymize_farm_name_def sha256_lower_def or_empty_def is_ascii_def
      digest_samabaco PROTECTED_HASH_TO_ALIAS_def)

lemma str_lower_K_farm: "str_lower U ''K-farm'' = ''k-farm''"
  by (simp add: str_lower_def is_ascii_def lower_char_def)

lemma str_lower_J_farm: "str_lower U ''J-farm'' = ''j-farm''"
  by (simp add: str_lower_def is_ascii_def lower_char_def)

lemma hash_K_farm: "map_of PROTECTED_HASH_TO_ALIAS (sha256_lower U (Some ''K-farm'')) = None"
  by (simp add: sha256_lower_def or_empty_def str_lower_K_farm digest_k_farm PROTECTED_HASH_TO_ALIAS_def)

lemma hash_J_farm: "map_of PROTECTED_HASH_TO_ALIAS (sha256_lower U (Some ''J-farm'')) = None"
  by (simp add: sha256_lower_def or_empty_def str_lower_J_farm digest_j_farm PROTECTED_HASH_TO_ALIAS_def)

lemma hash_empty: "map_of PROTECTED_HASH_TO_ALIAS (sha256_lower U (Some [])) = None"
  by (simp add: sha256_lower_def or_empty_def str_lower_def is_ascii_def digest_empty PROTECTED_HASH_TO_ALIAS_def)

lemma sha256_lower_or_empty: "sha256_lower U (Some (or_empty name)) = sha256_lower U name"
  by (simp add: sha256_lower_def or_empty_def split: option.splits)

lemma anonymize_cases:
  "anonymize_farm_name U name =
     (case map_of PROTECTED_HASH_TO_ALIAS (sha256_lower U name) of
        Some alias \<Rightarrow> alias | None \<Rightarrow> or_empty name)"
  by (simp add: anonymize_farm_name_def sha256_lower_or_empty)

lemma anonymize_passthrough:
  "map_of PROTECTED_HASH_TO_ALIAS (sha256_lower U (Some s)) = None \<Longrightarrow> anonymize_farm_name U (Some s) = s"
  by (simp add: anonymize_cases or_empty_def)

lemma anonymize_range:
  "anonymize_farm_name U name = or_empty name \<and> map_of PROTECTED_HASH_TO_ALIAS (sha256_lower U name) = None
   \<or> anonymize_farm_name U name = ''K-farm'' \<or> anonymize_farm_name U name = ''J-farm''"
  by (auto simp: anonymize_cases PROTECTED_HASH_TO_ALIAS_def split: option.splits if_splits)

section \<open>Properties of the alias directory\<close>

lemma farm_names_distinct: "distinct (farm_names db)"
  by (simp add: farm_names_def)

lemma farm_names_nonempty: "[] \<notin> set (farm_names db)"
  by (simp add: farm_names_def)

lemma farm_names_sorted: "sorted (farm_names db)"
  by (simp add: farm_names_def)

lemma assign_alias_eq:
  "assign_alias U (a2i, i2a) actual =
     (AList.update (chosen_alias U a2i actual) actual a2i,
      AList.update actual (chosen_alias U a2i actual) i2a)"
  by (simp add: assign_alias_def chosen_alias_def Let_def)

lemma suffix_loop_exit: "\<not> taken d actual (suffix_loop d actual base a i)"
  by (induction d actual base a i rule: suffix_loop.induct)
     (subst suffix_loop.simps, simp)

lemma suffix_loop_free: "\<not> taken d actual a \<Longrightarrow> suffix_loop d actual base a i = a"
  by (subst suffix_loop.simps) simp

lemma suffix_loop_taken:
  "taken d actual a \<Longrightarrow>
   \<exists>k\<ge>i. suffix_loop d actual base a i = suffixed base k \<and> \<not> taken d actual (suffixed base k)
        \<and> (\<forall>k'. i \<le> k' \<and> k' < k \<longrightarrow> taken d actual (suffixed base k'))"
proof (induction d actual base a i rule: suffix_loop.induct)
  case (1 d actual base a i)
  have step: "suffix_loop d actual base a i = suffix_loop d actual base (suffixed base i) (i + 1)"
    using "1.prems" by (subst suffix_loop.simps) simp
  show ?case
  proof (cases "taken d actual (suffixed base i)")
    case False
    then have "suffix_loop d actual base a i = suffixed base i"
      using step by (simp add: suffix_loop_free)
    with False show ?thesis by (intro exI [of _ i]) auto
  next
    case True
    from "1.IH" [OF "1.prems" True] obtain k where k: "i + 1 \<le> k"
      "suffix_loop d actual base (suffixed base i) (i + 1) = suffixed base k"
      "\<not> taken d actual (suffixed base k)"
      "\<forall>k'. i + 1 \<le> k' \<and> k' < k \<longrightarrow> taken d actual (suffixed base k')"
      by blast
    have "\<forall>k'. i \<le> k' \<and> k' < k \<longrightarrow> taken d actual (suffixed base k')"
    proof (intro allI impI)
      fix k' assume "i \<le> k' \<and> k' < k"
      then have "k' = i \<or> (i + 1 \<le> k' \<and> k' < k)" by linarith
      then show "taken d actual (suffixed base k')" using True k(4) by blast
    qed
    with k step show ?thesis by (intro exI [of _ k]) simp
  qed
qed

lemma assign_alias_inverse:
  assumes "inverse_maps names maps" "actual \<notin> set names"
  shows "inverse_maps (names @ [actual]) (assign_alias U maps actual)"
proof -
  obtain a2i i2a where maps: "maps = (a2i, i2a)" by (cases maps)
  let ?a = "chosen_alias U a2i actual"
  from assms maps have inv: "distinct (map fst a2i)" "distinct (map fst i2a)"
    "fst ` set i2a = set names" "\<And>r a. (map_of i2a r = Some a) = (map_of a2i a = Some r)"
    by (simp_all add: inverse_maps_def)
  have no_actual: "map_of a2i a \<noteq> Some actual" for a
  proof
    assume "map_of a2i a = Some actual"
    then have "map_of i2a actual = Some a" by (simp add: inv(4))
    then have "actual \<in> fst ` set i2a" by (metis map_of_SomeD fst_conv image_eqI)
    with inv(3) assms(2) show False by simp
  qed
  have "\<not> taken a2i actual ?a"
    unfolding chosen_alias_def by (rule suffix_loop_exit)
  with no_actual have fresh: "map_of a2i ?a = None"
    by (auto simp: taken_def split: option.splits)
  have fresh_r: "map_of i2a actual = None"
    using inv(3) assms(2) by (metis map_of_eq_None_iff)
  have "(map_of (AList.update actual ?a i2a) r = Some a)
        = (map_of (AList.update ?a actual a2i) a = Some r)" for r a
    using fresh fresh_r inv(4) no_actual
    by (auto simp: AList.update_conv')
  then show ?thesis
    using inv by (simp add: maps assign_alias_eq inverse_maps_def distinct_update dom_update)
qed

lemma build_loop_inverse:
  "distinct names \<Longrightarrow> inverse_maps names (foldl (assign_alias U) ([], []) names)"
proof (induction names rule: rev_induct)
  case Nil
  show ?case by (simp add: inverse_maps_def)
next
  case (snoc x xs)
  then show ?case by (simp add: assign_alias_inverse)
qed

lemma taken_iff_key:
  assumes "inverse_maps names (d, e)" "actual \<notin> set names"
  shows "taken d actual a = (a \<in> fst ` set d)"
proof -
  have "map_of d a \<noteq> Some actual"
  proof
    assume "map_of d a = Some actual"
    then have "map_of e actual = Some a" using assms(1) by (simp add: inverse_maps_def)
    then have "actual \<in> fst ` set e" by (metis map_of_SomeD fst_conv image_eqI)
    with assms show False by (simp add: inverse_maps_def)
  qed
  then show ?thesis
  proof (cases "map_of d a")
    case None
    then have "a \<notin> fst ` set d" by (simp add: map_of_eq_None_iff)
    then show ?thesis unfolding taken_def None by simp
  next
    case (Some r)
    then have "(a, r) \<in> set d" by (rule map_of_SomeD)
    then have "a \<in> fst ` set d" by (rule rev_image_eqI) simp
    with Some \<open>map_of d a \<noteq> Some actual\<close> show ?thesis by (simp add: taken_def)
  qed
qed

lemma nth_notin_take:
  assumes "distinct xs" "j < length xs"
  shows "xs ! j \<notin> set (take j xs)"
proof
  assume "xs ! j \<in> set (take j xs)"
  then obtain i where "i < length (take j xs)" "take j xs ! i = xs ! j"
    by (auto simp: in_set_conv_nth)
  then have "i < j" "xs ! i = xs ! j" using assms(2) by simp_all
  with assms show False by (simp add: nth_eq_iff_index_eq)
qed

lemma nth_in_take: "i < j \<Longrightarrow> j < length xs \<Longrightarrow> xs ! i \<in> set (take j xs)"
  by (auto simp: in_set_conv_nth intro!: exI [of _ i])

lemma assign_alias_keys:
  "fst ` set (fst (assign_alias U m actual)) =
     insert (chosen_alias U (fst m) actual) (fst ` set (fst m))"
  by (cases m) (simp add: assign_alias_eq dom_update)

lemma candidate_key_after_step:
  "anonymize_farm_name U (Some actual) \<in> fst ` set (fst (assign_alias U m actual))"
proof (cases "taken (fst m) actual (anonymize_farm_name U (Some actual))")
  case True
  then have "anonymize_farm_name U (Some actual) \<in> fst ` set (fst m)"
    by (auto simp: taken_def split: option.splits dest: map_of_SomeD intro: rev_image_eqI)
  then show ?thesis by (simp add: assign_alias_keys)
next
  case False
  then have "chosen_alias U (fst m) actual = anonymize_farm_name U (Some actual)"
    by (simp add: chosen_alias_def suffix_loop_free)
  then show ?thesis by (simp add: assign_alias_keys)
qed

lemma candidate_key_after_loop:
  "r \<in> set ns \<Longrightarrow>
   anonymize_farm_name U (Some r) \<in> fst ` set (fst (foldl (assign_alias U) m ns))"
proof (induction ns rule: rev_induct)
  case Nil
  then show ?case by simp
next
  case (snoc x xs)
  show ?case
  proof (cases "r = x")
    case True
    then show ?thesis by (simp add: candidate_key_after_step)
  next
    case False
    with snoc show ?thesis by (simp add: assign_alias_keys)
  qed
qed

lemma internal_to_alias_stable:
  "actual \<notin> set ns \<Longrightarrow>
   map_of (snd (foldl (assign_alias U) m ns)) actual = map_of (snd m) actual"
proof (induction ns arbitrary: m)
  case Nil
  show ?case by simp
next
  case (Cons x xs)
  then have "map_of (snd (foldl (assign_alias U) (assign_alias U m x) xs)) actual
             = map_of (snd (assign_alias U m x)) actual" by simp
  also have "\<dots> = map_of (snd m) actual"
    using Cons.prems by (cases m) (simp add: assign_alias_eq AList.update_conv')
  finally show ?case by simp
qed

lemma alias_of_nth:
  assumes "distinct names" "j < length names"
  shows "map_of (snd (foldl (assign_alias U) ([], []) names)) (names ! j) =
         Some (chosen_alias U (fst (foldl (assign_alias U) ([], []) (take j names))) (names ! j))"
proof -
  let ?m = "foldl (assign_alias U) ([], []) (take j names)"
  have split: "names = take j names @ names ! j # drop (Suc j) names"
    using assms(2) by (rule id_take_nth_drop)
  have "distinct (take j names @ names ! j # drop (Suc j) names)"
    using assms(1) split by simp
  then have notin: "names ! j \<notin> set (drop (Suc j) names)"
    by simp
  have "foldl (assign_alias U) ([], []) names
        = foldl (assign_alias U) (assign_alias U ?m (names ! j)) (drop (Suc j) names)"
    by (subst split) simp
  then have "map_of (snd (foldl (assign_alias U) ([], []) names)) (names ! j)
        = map_of (snd (assign_alias U ?m (names ! j))) (names ! j)"
    using internal_to_alias_stable [OF notin] by simp
  then show ?thesis
    by (cases ?m) (simp add: assign_alias_eq AList.update_conv')
qed

lemma collision_suffix:
  assumes "distinct names" "i < j" "j < length names"
    and "anonymize_farm_name U (Some (names ! i)) = anonymize_farm_name U (Some (names ! j))"
  shows "\<exists>k\<ge>2.
           map_of (snd (foldl (assign_alias U) ([], []) names)) (names ! j)
             = Some (suffixed (anonymize_farm_name U (Some (names ! j))) k)
         \<and> suffixed (anonymize_farm_name U (Some (names ! j))) k
             \<notin> fst ` set (fst (foldl (assign_alias U) ([], []) (take j names)))
         \<and> (\<forall>k'. 2 \<le> k' \<and> k' < k \<longrightarrow>
               suffixed (anonymize_farm_name U (Some (names ! j))) k'
                 \<in> fst ` set (fst (foldl (assign_alias U) ([], []) (take j names))))"
proof -
  let ?m = "foldl (assign_alias U) ([], []) (take j names)"
  let ?c = "anonymize_farm_name U (Some (names ! j))"
  obtain d e where m: "?m = (d, e)" by (cases ?m)
  have inv: "inverse_maps (take j names) (d, e)"
    using build_loop_inverse [of "take j names" U] assms(1) m by simp
  have notin: "names ! j \<notin> set (take j names)"
    using assms(1,3) by (rule nth_notin_take)
  have "names ! i \<in> set (take j names)"
    using assms(2,3) by (rule nth_in_take)
  then have "?c \<in> fst ` set (fst ?m)"
    using candidate_key_after_loop [of "names ! i" "take j names" U "([], [])"] assms(4) by simp
  then have "taken d (names ! j) ?c"
    using taken_iff_key [OF inv notin] m by simp
  from suffix_loop_taken [OF this, of 2 ?c] obtain k where k: "2 \<le> k"
    "suffix_loop d (names ! j) ?c ?c 2 = suffixed ?c k"
    "\<not> taken d (names ! j) (suffixed ?c k)"
    "\<forall>k'. 2 \<le> k' \<and> k' < k \<longrightarrow> taken d (names ! j) (suffixed ?c k')"
    by blast
  have "map_of (snd (foldl (assign_alias U) ([], []) names)) (names ! j) = Some (suffixed ?c k)"
    using alias_of_nth [OF assms(1,3), of U] k(2) m by (simp add: chosen_alias_def)
  with k show ?thesis
    using taken_iff_key [OF inv notin] m by (intro exI [of _ k]) simp
qed

lemma build_maps_eq:
  "build_farm_alias_maps U db = (aliases, a2i, i2a) \<Longrightarrow>
   foldl (assign_alias U) ([], []) (farm_names db) = (a2i, i2a)
   \<and> aliases = sort_key (str_lower U) (map fst a2i)"
  by (auto simp: build_farm_alias_maps_def Let_def split: prod.splits)

lemma build_maps_inverse:
  "build_farm_alias_maps U db = (aliases, a2i, i2a) \<Longrightarrow>
   inverse_maps (farm_names db) (a2i, i2a)"
  using build_loop_inverse [OF farm_names_distinct, of db U] build_maps_eq [of U db aliases a2i i2a]
  by simp

section \<open>Evaluating the directory on the example table\<close>

lemma farm_names0: "farm_names db0 = [''K-farm'', ''MAGPANTAY'', ''Magpantay'']"
  by (simp add: farm_names_def db0_def or_empty_def)

lemma anonymize0:
  "anonymize_farm_name U (Some ''K-farm'') = ''K-farm''"
  "anonymize_farm_name U (Some ''MAGPANTAY'') = ''K-farm''"
  "anonymize_farm_name U (Some ''Magpantay'') = ''K-farm''"
  by (simp_all add: anonymize_passthrough hash_K_farm anonymize_protected_K lower_char_def)

lemmas loop_eval = assign_alias_def Let_def suffix_loop.simps taken_def suffixed_def
  str_nat.simps digit_char_def

lemma build0:
  "build_farm_alias_maps (\<lambda>s. s) db0 =
     ([''K-farm'', ''K-farm-2'', ''K-farm-3''],
      [(''K-farm'', ''K-farm''), (''K-farm-2'', ''MAGPANTAY''), (''K-farm-3'', ''Magpantay'')],
      [(''K-farm'', ''K-farm''), (''MAGPANTAY'', ''K-farm-2''), (''Magpantay'', ''K-farm-3'')])"
  by (simp add: build_farm_alias_maps_def farm_names0 anonymize0 loop_eval
      str_lower_def is_ascii_def lower_char_def)

section \<open>Evaluating the aggregator\<close>

lemma floor_rat_numeral_div: "\<lfloor>numeral a / numeral b :: rat\<rfloor> = numeral a div numeral b"
  by (metis floor_divide_of_int_eq of_int_numeral)

lemmas frame_eval = since_filter_def monthly_liters_def monthly_cows_def monthly_count_def
  round_liters_def merge_sessions_def farm_years_def farm_avg_daily_def
  animal_years_def animal_avg_daily_def merge_left_def fillna0_def group_by_def count_distinct_def
  coalesce0_def sql_sum_def sql_avg_def sql_round1_def rint_def pd_round1_def pd_div_def
  month_of_def floor_rat_numeral_div

lemmas agg_eval = farm_yield_summary_def animal_yield_summary_def farm_records_def
  animal_records_def frame_eval

section \<open>The first day of the window\<close>

text \<open>
  For every clock date from the year 2 on, the day 365 days before it exists: the
  subtraction in the two summaries does not raise.
\<close>

lemma days_before_month_bounds:
  assumes "1 \<le> month" "month \<le> 12"
  shows "0 \<le> days_before_month year month \<and> days_before_month year month \<le> 335"
proof -
  from assms have "month = 1 \<or> month = 2 \<or> month = 3 \<or> month = 4 \<or> month = 5
      \<or> month = 6 \<or> month = 7 \<or> month = 8 \<or> month = 9 \<or> month = 10
      \<or> month = 11 \<or> month = 12"
    by presburger
  then show ?thesis
    by (elim disjE) (simp_all add: days_before_month_def DAYS_BEFORE_MONTH_def)
qed

lemma days_before_year_bounds:
  assumes "2 \<le> year" "year \<le> 9999"
  shows "365 \<le> days_before_year year \<and> days_before_year year \<le> 3651770"
proof -
  let ?y = "int year - 1"
  have y: "1 \<le> ?y" "?y \<le> 9998" using assms by simp_all
  have "?y div 100 \<le> ?y div 4" using y by (intro zdiv_mono2) simp_all
  moreover have "?y div 400 \<le> ?y div 100" using y by (intro zdiv_mono2) simp_all
  moreover have "0 \<le> ?y div 400" using y by simp
  moreover have "?y div 4 \<le> 2499" using y by linarith
  ultimately show ?thesis
    using y by (simp add: days_before_year_def Let_def)
qed

lemma window_start_exists:
  assumes "2 \<le> year" "year \<le> 9999" "1 \<le> month" "month \<le> 12" "1 \<le> day" "day \<le> 31"
  shows "\<exists>since. date_sub_days (year, month, day) 365 = Inr since"
proof -
  from days_before_year_bounds [OF assms(1,2)] days_before_month_bounds [OF assms(3,4), of year] assms(5,6)
  have "365 < ymd2ord (year, month, day)" "ymd2ord (year, month, day) - 365 \<le> 3652059"
    by (simp_all add: ymd2ord_def)
  then have "date_sub_days (year, month, day) 365
             = Inr (ord2ymd (ymd2ord (year, month, day) - 365))"
    by (simp add: date_sub_days_def Let_def)
  then show ?thesis ..
qed

section \<open>Properties of the aggregator\<close>

lemma group_by_keys: "map fst (group_by key rows) = sort (remdups (map key rows))"
  by (simp add: group_by_def comp_def)

lemma group_by_keys_set: "fst ` set (group_by key rows) = key ` set rows"
  using group_by_keys [of key rows] by (metis list.set_map set_remdups set_sort)



lemma group_by_Nil [simp]: "group_by key [] = []"
  by (simp add: group_by_def)

lemma group_by_eq_Nil: "(group_by key rows = []) = (rows = [])"
proof -
  have "(group_by key rows = []) = (fst ` set (group_by key rows) = {})" by simp
  also have "\<dots> = (key ` set rows = {})" by (simp only: group_by_keys_set)
  also have "\<dots> = (rows = [])" by simp
  finally show ?thesis .
qed


lemma farm_summary_unfold:
  "date_sub_days today 365 = Inr since \<Longrightarrow>
   farm_yield_summary today db name =
     Inr (coalesce0 (sql_sum (map yield_value (farm_records db name))),
          count_distinct (map record_date (farm_records db name)),
          farm_avg_daily (farm_years (farm_records db name)),
          merge_sessions (round_liters (monthly_liters (since_filter since (farm_records db name))))
                         (monthly_cows (since_filter since (farm_records db name))))"
  by (simp add: farm_yield_summary_def Let_def)

lemma animal_summary_unfold:
  "date_sub_days today 365 = Inr since \<Longrightarrow>
   animal_yield_summary bounds today db tag =
     Inr (coalesce0 (sql_sum (map yield_value (animal_records db tag))),
          count_distinct (map record_date (animal_records db tag)),
          (case (to_datetime bounds (sql_min (map record_date (animal_records db tag))),
                 to_datetime bounds (sql_max (map record_date (animal_records db tag)))) of
             (Some d0, Some d1) \<Rightarrow> ymd2ord d1 - ymd2ord d0 + 1
           | _ \<Rightarrow> int (count_distinct (map record_date (animal_records db tag)))),
          animal_avg_daily (animal_years (animal_records db tag)),
          merge_sessions (round_liters (monthly_liters (since_filter since (animal_records db tag))))
                         (monthly_count (since_filter since (animal_records db tag))),
          (map_option sql_round1 (sql_avg (map yield_value (animal_records db tag))),
           sql_max (map yield_value (animal_records db tag)),
           sql_min (map yield_value (animal_records db tag))))"
  by (simp add: animal_yield_summary_def Let_def split: option.splits)

lemma to_datetime_None [simp]: "to_datetime bounds None = None"
  by (simp add: to_datetime_def)

lemma to_datetime_cases:
  "to_datetime bounds (Some d) = None \<or> to_datetime bounds (Some d) = Some d"
  by (simp add: to_datetime_def)

lemma farm_summary_overflow:
  "date_sub_days today 365 = Inl e \<Longrightarrow> farm_yield_summary today db name = Inl e"
  by (simp add: farm_yield_summary_def Let_def)


















lemma sql_min_Min: "sql_min xs = Some (Min (set xs))" if "xs \<noteq> []"
proof (cases xs)
  case Nil
  then show ?thesis using that by simp
next
  case (Cons a list)
  have "Min (set (a # list)) = fold min list a" by (rule Min.set_eq_fold)
  with Cons show ?thesis by simp
qed

lemma sql_max_Max: "sql_max xs = Some (Max (set xs))" if "xs \<noteq> []"
proof (cases xs)
  case Nil
  then show ?thesis using that by simp
next
  case (Cons a list)
  have "Max (set (a # list)) = fold max list a" by (rule Max.set_eq_fold)
  with Cons show ?thesis by simp
qed













section \<open>Evaluating the summaries on the examples\<close>

lemma since_2024_02_02: "date_sub_days (2024, 2, 2) 365 = Inr (2023, 2, 2)"
  by (simp add: date_eval)

lemma farm_summary_db4:
  "farm_yield_summary (2024, 2, 2) db4 ''F''
   = Inr (45 / 2, 1, [(2024, 45 / 2, 1, 2, Some (45 / 2))], [((2024, 1), 22, 2)])"
  by (simp add: agg_eval date_eval db4_def)

lemma animal_summary_db4:
  "animal_yield_summary timestamp_ns (2024, 2, 2) db4 ''A''
   = Inr (10, 1, 1, [(2024, 10, 1, Some 10)], [((2024, 1), 10, 1)], Some 10, Some 10, Some 10)"
  by (simp add: agg_eval date_eval db4_def)



lemma animal_summary_db9:
  "animal_yield_summary timestamp_ns (2024, 2, 2) db9 ''A''
   = Inr (12, 2, 3, [(2023, 12, 2, Some 6)], [((2023, 6), 12, 2)], Some 6, Some 7, Some 5)"
  by (simp add: agg_eval date_eval db9_def)

lemma animal_records_db9:
  "animal_records db9 ''A'' =
     [\<lparr>m_ear_tag = ''A'', record_date = (2023, 6, 1), record_year = 2023, yield_value = 5\<rparr>,
      \<lparr>m_ear_tag = ''A'', record_date = (2023, 6, 3), record_year = 2023, yield_value = 7\<rparr>]"
  by (simp add: animal_records_def db9_def)



lemma two_cow_records:
  "t1 \<noteq> t2 \<Longrightarrow> farm_records (two_cow_db f t1 t2) f =
     [\<lparr>m_ear_tag = t1, record_date = (2024, 1, 15), record_year = 2024, yield_value = 10\<rparr>,
      \<lparr>m_ear_tag = t2, record_date = (2024, 1, 15), record_year = 2024, yield_value = 25 / 2\<rparr>]"
  by (auto simp: farm_records_def two_cow_db_def)

section \<open>The alias directory is a bijection\<close>

text \<open>
  Claim C1.  For every contents of the \<open>animals\<close> table, the farm names that the query
  returns are distinct and non-empty, and the two dictionaries that
  \<open>build_farm_alias_maps\<close> returns are inverses of each other: the keys of
  \<open>internal_to_alias\<close> are exactly the distinct non-empty farm names of the table, the
  keys of \<open>alias_to_internal\<close> are exactly the returned aliases, every farm name has one
  alias that maps back to it, every alias has one farm name that maps back to it, and
  no two farm names share an alias.
\<close>

theorem alias_directory_inverse:
  assumes "build_farm_alias_maps U db = (aliases, alias_to_internal, internal_to_alias)"
  shows "distinct (farm_names db) \<and> [] \<notin> set (farm_names db)
     \<and> fst ` set internal_to_alias = set (farm_names db)
     \<and> fst ` set alias_to_internal = set aliases
     \<and> distinct (map fst internal_to_alias) \<and> distinct (map fst alias_to_internal)
     \<and> (\<forall>r a. (map_of internal_to_alias r = Some a) = (map_of alias_to_internal a = Some r))
     \<and> (\<forall>r\<in>set (farm_names db). \<exists>a\<in>set aliases.
           map_of internal_to_alias r = Some a \<and> map_of alias_to_internal a = Some r)
     \<and> (\<forall>a\<in>set aliases. \<exists>r\<in>set (farm_names db).
           map_of alias_to_internal a = Some r \<and> map_of internal_to_alias r = Some a)
     \<and> (\<forall>r r' a. map_of internal_to_alias r = Some a \<and> map_of internal_to_alias r' = Some a
           \<longrightarrow> r = r')"
proof -
  let ?a2i = alias_to_internal and ?i2a = internal_to_alias
  from build_maps_inverse [OF assms]
  have inv: "distinct (map fst ?a2i)" "distinct (map fst ?i2a)"
    "fst ` set ?i2a = set (farm_names db)"
    "\<And>r a. (map_of ?i2a r = Some a) = (map_of ?a2i a = Some r)"
    by (simp_all add: inverse_maps_def)
  have keys: "fst ` set ?a2i = set aliases"
    using build_maps_eq [OF assms] by simp
  have fwd: "\<exists>a\<in>set aliases. map_of ?i2a r = Some a \<and> map_of ?a2i a = Some r"
    if "r \<in> set (farm_names db)" for r
  proof -
    from that inv(3) have "map_of ?i2a r \<noteq> None"
      by (simp add: map_of_eq_None_iff)
    then obtain a where a: "map_of ?i2a r = Some a" by auto
    then have b: "map_of ?a2i a = Some r" by (simp add: inv(4))
    then have "(a, r) \<in> set ?a2i" by (rule map_of_SomeD)
    then have "a \<in> fst ` set ?a2i" by (rule rev_image_eqI) simp
    then have "a \<in> set aliases" using keys by simp
    then show ?thesis using a b by (intro bexI [of _ a]) simp_all
  qed
  have bwd: "\<exists>r\<in>set (farm_names db). map_of ?a2i a = Some r \<and> map_of ?i2a r = Some a"
    if "a \<in> set aliases" for a
  proof -
    from that keys have "map_of ?a2i a \<noteq> None"
      by (simp add: map_of_eq_None_iff)
    then obtain r where r: "map_of ?a2i a = Some r" by auto
    then have b: "map_of ?i2a r = Some a" by (simp add: inv(4))
    then have "(r, a) \<in> set ?i2a" by (rule map_of_SomeD)
    then have "r \<in> fst ` set ?i2a" by (rule rev_image_eqI) simp
    then have "r \<in> set (farm_names db)" using inv(3) by simp
    then show ?thesis using r b by (intro bexI [of _ r]) simp_all
  qed
  have inj: "r = r'" if "map_of ?i2a r = Some a \<and> map_of ?i2a r' = Some a" for r r' a
  proof -
    from that have "map_of ?i2a r = Some a" by (rule conjunct1)
    then have 1: "map_of ?a2i a = Some r" by (rule inv(4) [THEN iffD1])
    from that have "map_of ?i2a r' = Some a" by (rule conjunct2)
    then have 2: "map_of ?a2i a = Some r'" by (rule inv(4) [THEN iffD1])
    from 1 [symmetric] 2 have "Some r = Some r'" by (rule trans)
    then show ?thesis by simp
  qed
  have B: "\<forall>r a. (map_of ?i2a r = Some a) = (map_of ?a2i a = Some r)"
    by (intro allI) (rule inv(4))
  have C: "\<forall>r\<in>set (farm_names db). \<exists>a\<in>set aliases.
           map_of ?i2a r = Some a \<and> map_of ?a2i a = Some r"
    by (intro ballI) (rule fwd)
  have D: "\<forall>a\<in>set aliases. \<exists>r\<in>set (farm_names db).
           map_of ?a2i a = Some r \<and> map_of ?i2a r = Some a"
    by (intro ballI) (rule bwd)
  have E: "\<forall>r r' a. map_of ?i2a r = Some a \<and> map_of ?i2a r' = Some a \<longrightarrow> r = r'"
    by (intro allI impI) (rule inj)
  show ?thesis
    by (intro conjI farm_names_distinct farm_names_nonempty inv(3) keys inv(2) inv(1) B C D E)
qed


theorem alias_directory_inverse_witness:
  "build_farm_alias_maps (\<lambda>s. s) db0 =
     ([''K-farm'', ''K-farm-2'', ''K-farm-3''],
      [(''K-farm'', ''K-farm''), (''K-farm-2'', ''MAGPANTAY''), (''K-farm-3'', ''Magpantay'')],
      [(''K-farm'', ''K-farm''), (''MAGPANTAY'', ''K-farm-2''), (''Magpantay'', ''K-farm-3'')])
   \<and> set (farm_names db0) = {''K-farm'', ''MAGPANTAY'', ''Magpantay''}
   \<and> map_of [(''K-farm'', ''K-farm''), (''MAGPANTAY'', ''K-farm-2''), (''Magpantay'', ''K-farm-3'')]
         ''Magpantay'' = Some ''K-farm-3''
   \<and> map_of [(''K-farm'', ''K-farm''), (''K-farm-2'', ''MAGPANTAY''), (''K-farm-3'', ''Magpantay'')]
         ''K-farm-3'' = Some ''Magpantay''"
  using alias_directory_inverse [OF build0] build0 by (simp add: farm_names0)

section \<open>The anonymization mapper\<close>

text \<open>
  Claim C2.  \<open>anonymize_farm_name\<close> returns the alias of the table when the SHA-256
  digest of the lowercased input is one of its keys and the input itself otherwise.
  Every string whose lowercase is \<open>magpantay\<close> resolves to \<open>K-farm\<close>, every string
  whose lowercase is \<open>samabaco\<close> to \<open>J-farm\<close>; the empty string and \<open>None\<close> give the
  empty string.  The function is total: it has no failing branch.
\<close>

theorem resolve_alias_spec:
  "(\<forall>a. map_of PROTECTED_HASH_TO_ALIAS (sha256_lower U name) = Some a
        \<longrightarrow> anonymize_farm_name U name = a)
   \<and> (map_of PROTECTED_HASH_TO_ALIAS (sha256_lower U name) = None
        \<longrightarrow> anonymize_farm_name U name = or_empty name)
   \<and> (\<forall>s. map lower_char s = ''magpantay'' \<longrightarrow> anonymize_farm_name U (Some s) = ''K-farm'')
   \<and> (\<forall>s. map lower_char s = ''samabaco'' \<longrightarrow> anonymize_farm_name U (Some s) = ''J-farm'')
   \<and> anonymize_farm_name U (Some ''magpantay'') = ''K-farm''
   \<and> anonymize_farm_name U (Some ''Magpantay'') = ''K-farm''
   \<and> anonymize_farm_name U (Some ''MAGPANTAY'') = ''K-farm''
   \<and> anonymize_farm_name U (Some []) = []
   \<and> anonymize_farm_name U None = []"
proof -
  have c1: "\<forall>a. map_of PROTECTED_HASH_TO_ALIAS (sha256_lower U name) = Some a
        \<longrightarrow> anonymize_farm_name U name = a"
    by (simp add: anonymize_cases)
  have c2: "map_of PROTECTED_HASH_TO_ALIAS (sha256_lower U name) = None
        \<longrightarrow> anonymize_farm_name U name = or_empty name"
    by (simp add: anonymize_cases)
  have c3: "\<forall>s. map lower_char s = ''magpantay'' \<longrightarrow> anonymize_farm_name U (Some s) = ''K-farm''"
    by (simp add: anonymize_protected_K)
  have c4: "\<forall>s. map lower_char s = ''samabaco'' \<longrightarrow> anonymize_farm_name U (Some s) = ''J-farm''"
    by (simp add: anonymize_protected_J)
  have c5: "anonymize_farm_name U (Some ''magpantay'') = ''K-farm''"
    by (rule anonymize_protected_K) (simp add: lower_char_def)
  have c6: "anonymize_farm_name U (Some ''Magpantay'') = ''K-farm''"
    by (rule anonymize_protected_K) (simp add: lower_char_def)
  have c7: "anonymize_farm_name U (Some ''MAGPANTAY'') = ''K-farm''"
    by (rule anonymize_protected_K) (simp add: lower_char_def)
  have c8: "anonymize_farm_name U (Some []) = []"
    using hash_empty [of U] by (simp add: anonymize_cases or_empty_def)
  have "map_of PROTECTED_HASH_TO_ALIAS (sha256_lower U None) = None"
    using hash_empty [of U] by (simp add: sha256_lower_def or_empty_def)
  then have c9: "anonymize_farm_name U None = []"
    by (simp add: anonymize_cases or_empty_def)
  show ?thesis
    by (intro conjI c1 c2 c3 c4 c5 c6 c7 c8 c9)
qed

theorem resolve_alias_spec_witness:
  "map_of PROTECTED_HASH_TO_ALIAS (sha256_lower (\<lambda>s. s) (Some ''SaMaBaCo'')) = Some ''J-farm''
   \<and> anonymize_farm_name (\<lambda>s. s) (Some ''SaMaBaCo'') = ''J-farm''
   \<and> map_of PROTECTED_HASH_TO_ALIAS (sha256_lower (\<lambda>s. s) (Some ''K-farm'')) = None
   \<and> anonymize_farm_name (\<lambda>s. s) (Some ''K-farm'') = ''K-farm''
   \<and> map lower_char ''mAgPaNtAy'' = ''magpantay''
   \<and> anonymize_farm_name (\<lambda>s. s) (Some ''mAgPaNtAy'') = ''K-farm''"
proof -
  have l: "map lower_char ''SaMaBaCo'' = ''samabaco''" "map lower_char ''mAgPaNtAy'' = ''magpantay''"
    by (simp_all add: lower_char_def)
  have h: "map_of PROTECTED_HASH_TO_ALIAS (sha256_lower (\<lambda>s. s) (Some ''SaMaBaCo'')) = Some ''J-farm''"
    using l(1) by (simp add: sha256_lower_def or_empty_def str_lower_def is_ascii_def
        digest_samabaco PROTECTED_HASH_TO_ALIAS_def)
  show ?thesis
    using resolve_alias_spec [of "\<lambda>s. s" "Some ''SaMaBaCo''"]
      resolve_alias_spec [of "\<lambda>s. s" "Some ''K-farm''"] h l hash_K_farm [of "\<lambda>s. s"]
    by (simp add: or_empty_def)
qed

section \<open>Alias collisions\<close>

text \<open>
  Claim C3.  When two names of the snapshot have the same candidate alias, the one built
  second (the later one in the order of the query) receives the alias \<open>base-k\<close> for the
  least \<open>k \<ge> 2\<close> such that \<open>base-k\<close> is not yet a key of \<open>alias_to_internal\<close>, and
  this alias differs from the alias of the first.  A candidate alias that already maps to
  the very name being built is reused as it is.  The directory remains a bijection.
\<close>

theorem alias_collision_suffix:
  assumes "build_farm_alias_maps U db = (aliases, alias_to_internal, internal_to_alias)"
    and "i < j" and "j < length (farm_names db)"
    and "anonymize_farm_name U (Some (farm_names db ! i))
         = anonymize_farm_name U (Some (farm_names db ! j))"
  shows "(\<exists>k\<ge>2.
            map_of internal_to_alias (farm_names db ! j)
              = Some (suffixed (anonymize_farm_name U (Some (farm_names db ! j))) k)
          \<and> suffixed (anonymize_farm_name U (Some (farm_names db ! j))) k
              \<notin> fst ` set (fst (foldl (assign_alias U) ([], []) (take j (farm_names db))))
          \<and> (\<forall>k'. 2 \<le> k' \<and> k' < k \<longrightarrow>
                suffixed (anonymize_farm_name U (Some (farm_names db ! j))) k'
                  \<in> fst ` set (fst (foldl (assign_alias U) ([], []) (take j (farm_names db))))))
     \<and> map_of internal_to_alias (farm_names db ! i)
         \<noteq> map_of internal_to_alias (farm_names db ! j)
     \<and> (\<forall>d e actual.
           map_of d (anonymize_farm_name U (Some actual)) = Some actual \<longrightarrow>
           assign_alias U (d, e) actual
             = (AList.update (anonymize_farm_name U (Some actual)) actual d,
                AList.update actual (anonymize_farm_name U (Some actual)) e))
     \<and> (\<forall>r a. (map_of internal_to_alias r = Some a) = (map_of alias_to_internal a = Some r))"
proof -
  let ?names = "farm_names db"
  have fold: "foldl (assign_alias U) ([], []) ?names = (alias_to_internal, internal_to_alias)"
    using build_maps_eq [OF assms(1)] by simp
  have inv: "\<And>r a. (map_of internal_to_alias r = Some a) = (map_of alias_to_internal a = Some r)"
    using build_maps_inverse [OF assms(1)] by (simp add: inverse_maps_def)
  have A: "\<exists>k\<ge>2.
            map_of internal_to_alias (?names ! j)
              = Some (suffixed (anonymize_farm_name U (Some (?names ! j))) k)
          \<and> suffixed (anonymize_farm_name U (Some (?names ! j))) k
              \<notin> fst ` set (fst (foldl (assign_alias U) ([], []) (take j ?names)))
          \<and> (\<forall>k'. 2 \<le> k' \<and> k' < k \<longrightarrow>
                suffixed (anonymize_farm_name U (Some (?names ! j))) k'
                  \<in> fst ` set (fst (foldl (assign_alias U) ([], []) (take j ?names))))"
    using collision_suffix [OF farm_names_distinct assms(2,3,4)] fold by simp
  have B: "map_of internal_to_alias (?names ! i) \<noteq> map_of internal_to_alias (?names ! j)"
  proof
    assume eq: "map_of internal_to_alias (?names ! i) = map_of internal_to_alias (?names ! j)"
    from A obtain a where a: "map_of internal_to_alias (?names ! j) = Some a" by blast
    then have "map_of alias_to_internal a = Some (?names ! j)" by (rule inv [THEN iffD1])
    moreover from a eq have "map_of internal_to_alias (?names ! i) = Some a" by simp
    then have "map_of alias_to_internal a = Some (?names ! i)" by (rule inv [THEN iffD1])
    ultimately have "?names ! i = ?names ! j" by simp
    then have "i = j"
      using farm_names_distinct [of db] assms(2,3) by (simp add: nth_eq_iff_index_eq)
    with assms(2) show False by simp
  qed
  have C: "\<forall>d e actual.
           map_of d (anonymize_farm_name U (Some actual)) = Some actual \<longrightarrow>
           assign_alias U (d, e) actual
             = (AList.update (anonymize_farm_name U (Some actual)) actual d,
                AList.update actual (anonymize_farm_name U (Some actual)) e)"
    by (simp add: assign_alias_eq chosen_alias_def suffix_loop_free taken_def)
  have D: "\<forall>r a. (map_of internal_to_alias r = Some a) = (map_of alias_to_internal a = Some r)"
    by (intro allI) (rule inv)
  show ?thesis
    by (intro conjI A B C D)
qed

theorem alias_collision_suffix_witness:
  "build_farm_alias_maps (\<lambda>s. s) db0 =
     ([''K-farm'', ''K-farm-2'', ''K-farm-3''],
      [(''K-farm'', ''K-farm''), (''K-farm-2'', ''MAGPANTAY''), (''K-farm-3'', ''Magpantay'')],
      [(''K-farm'', ''K-farm''), (''MAGPANTAY'', ''K-farm-2''), (''Magpantay'', ''K-farm-3'')])
   \<and> (1 :: nat) < 2 \<and> 2 < length (farm_names db0)
   \<and> anonymize_farm_name (\<lambda>s. s) (Some (farm_names db0 ! 1))
       = anonymize_farm_name (\<lambda>s. s) (Some (farm_names db0 ! 2))
   \<and> farm_names db0 ! 2 = ''Magpantay''
   \<and> (\<exists>k\<ge>2.
         map_of [(''K-farm'', ''K-farm''), (''MAGPANTAY'', ''K-farm-2''), (''Magpantay'', ''K-farm-3'')]
           ''Magpantay'' = Some (suffixed ''K-farm'' k)
       \<and> suffixed ''K-farm'' k
           \<notin> fst ` set (fst (foldl (assign_alias (\<lambda>s. s)) ([], []) (take 2 (farm_names db0)))))
   \<and> suffixed ''K-farm'' 3 = ''K-farm-3''
   \<and> map_of [(''K-farm'', ''K-farm'')] (anonymize_farm_name (\<lambda>s. s) (Some ''K-farm''))
       = Some ''K-farm''
   \<and> assign_alias (\<lambda>s. s) ([(''K-farm'', ''K-farm'')], [(''K-farm'', ''K-farm'')]) ''K-farm''
       = ([(''K-farm'', ''K-farm'')], [(''K-farm'', ''K-farm'')])"
proof -
  have h2: "(1 :: nat) < 2" by simp
  have h3: "2 < length (farm_names db0)" by (simp add: farm_names0)
  have h4: "anonymize_farm_name (\<lambda>s. s) (Some (farm_names db0 ! 1))
       = anonymize_farm_name (\<lambda>s. s) (Some (farm_names db0 ! 2))"
    by (simp add: farm_names0 anonymize0)
  have n: "farm_names db0 ! 2 = ''Magpantay''" by (simp add: farm_names0)
  have s: "suffixed ''K-farm'' 3 = ''K-farm-3''"
    by (simp add: suffixed_def str_nat.simps digit_char_def)
  have r: "map_of [(''K-farm'', ''K-farm'')] (anonymize_farm_name (\<lambda>s. s) (Some ''K-farm''))
       = Some ''K-farm''"
    by (simp add: anonymize0)
  from alias_collision_suffix [OF build0 h2 h3 h4] r
  have "assign_alias (\<lambda>s. s) ([(''K-farm'', ''K-farm'')], [(''K-farm'', ''K-farm'')]) ''K-farm''
       = (AList.update (anonymize_farm_name (\<lambda>s. s) (Some ''K-farm'')) ''K-farm'' [(''K-farm'', ''K-farm'')],
          AList.update ''K-farm'' (anonymize_farm_name (\<lambda>s. s) (Some ''K-farm'')) [(''K-farm'', ''K-farm'')])"
    by blast
  then have u: "assign_alias (\<lambda>s. s) ([(''K-farm'', ''K-farm'')], [(''K-farm'', ''K-farm'')]) ''K-farm''
       = ([(''K-farm'', ''K-farm'')], [(''K-farm'', ''K-farm'')])"
    by (simp add: anonymize0)
  from alias_collision_suffix [OF build0 h2 h3 h4]
  have "\<exists>k\<ge>2.
         map_of [(''K-farm'', ''K-farm''), (''MAGPANTAY'', ''K-farm-2''), (''Magpantay'', ''K-farm-3'')]
           ''Magpantay'' = Some (suffixed ''K-farm'' k)
       \<and> suffixed ''K-farm'' k
           \<notin> fst ` set (fst (foldl (assign_alias (\<lambda>s. s)) ([], []) (take 2 (farm_names db0))))"
    unfolding n anonymize0 by blast
  then show ?thesis
    using build0 h3 h4 n s r u by simp
qed

section \<open>The farm of the first example\<close>

text \<open>
  Claim C4 expects 23 liters in the bucket of 2024-01.  The sum is 22.5, and pandas'
  \<open>round(0)\<close> takes a half to the even neighbour: the bucket holds 22.  Computed on
  2026-11-03 the trend is empty, the record being older than 365 days.
\<close>

theorem two_cow_farm_counterexample:
  "farm_yield_summary (2024, 2, 2) (two_cow_db ''F'' ''A'' ''B'') ''F''
     = Inr (45 / 2, 1, [(2024, 45 / 2, 1, 2, Some (45 / 2))], [((2024, 1), 22, 2)])
   \<and> farm_yield_summary (2026, 11, 3) (two_cow_db ''F'' ''A'' ''B'') ''F''
     = Inr (45 / 2, 1, [(2024, 45 / 2, 1, 2, Some (45 / 2))], [])"
  by (simp add: agg_eval date_eval two_cow_db_def)

text \<open>
  Claim C4, as the code has it.  For a farm with two animals, each with one record on
  2024-01-15, of 10.0 and 12.5 liters, \<open>farm_yield_summary\<close> returns 22.5 liters in total,
  one lactation day and the year 2024 with 22.5 liters, one day, two animals and a daily
  average of 22.5; the trend is the single bucket 2024-01 with 22 liters and 2 sessions
  when 2024-01-15 is not before the day 365 days before today, and empty otherwise.
\<close>

theorem two_cow_farm_summary:
  assumes "date_sub_days today 365 = Inr since" and "t1 \<noteq> t2"
  shows "farm_yield_summary today (two_cow_db f t1 t2) f
         = Inr (45 / 2, 1, [(2024, 45 / 2, 1, 2, Some (45 / 2))],
                if since \<le> (2024, 1, 15) then [((2024, 1), 22, 2)] else [])"
  using assms(2)
  by (simp add: farm_summary_unfold [OF assms(1)] two_cow_records frame_eval)

theorem two_cow_farm_summary_witness:
  "date_sub_days (2024, 2, 2) 365 = Inr (2023, 2, 2) \<and> ''A'' \<noteq> ''B''
   \<and> (2023, 2, 2) \<le> (2024 :: nat, 1 :: nat, 15 :: nat)
   \<and> farm_yield_summary (2024, 2, 2) (two_cow_db ''F'' ''A'' ''B'') ''F''
       = Inr (45 / 2, 1, [(2024, 45 / 2, 1, 2, Some (45 / 2))], [((2024, 1), 22, 2)])"
proof -
  have ne: "''A'' \<noteq> ''B''" by simp
  have le: "(2023, 2, 2) \<le> (2024 :: nat, 1 :: nat, 15 :: nat)" by simp
  from two_cow_farm_summary [OF since_2024_02_02 ne, of "''F''"] le
  have "farm_yield_summary (2024, 2, 2) (two_cow_db ''F'' ''A'' ''B'') ''F''
       = Inr (45 / 2, 1, [(2024, 45 / 2, 1, 2, Some (45 / 2))], [((2024, 1), 22, 2)])"
    by (simp only: if_True)
  then show ?thesis
    by (intro conjI since_2024_02_02 ne le)
qed

section \<open>The yearly breakdown\<close>



section \<open>Joining the liters and the sessions of a month\<close>




section \<open>The trailing twelve-month trend\<close>



section \<open>A scope without records\<close>

text \<open>
  Claim C8.  For a farm or an ear tag with no matching yield record both summaries
  return (no division by zero, no other fault): total 0, no lactation days, an empty
  yearly breakdown and an empty trend.  For the animal the bounds of the record dates are
  \<open>NULL\<close>, so \<open>duration\<close> falls back to the lactation days, 0, and the three statistics
  are \<open>NULL\<close>.  The hypothesis says that the day 365 days before today exists, as it
  does for every clock from the year 2 on (\<open>window_start_exists\<close>).
\<close>

theorem empty_scope_summary:
  assumes "date_sub_days today 365 = Inr since"
  shows "(farm_records db name = [] \<longrightarrow>
            farm_yield_summary today db name = Inr (0, 0, [], []))
       \<and> (animal_records db tag = [] \<longrightarrow>
            animal_yield_summary bounds today db tag = Inr (0, 0, 0, [], [], (None, None, None)))"
proof (intro conjI impI)
  assume "farm_records db name = []"
  then show "farm_yield_summary today db name = Inr (0, 0, [], [])"
    by (simp add: farm_summary_unfold [OF assms] coalesce0_def sql_sum_def count_distinct_def
        farm_years_def farm_avg_daily_def since_filter_def monthly_liters_def monthly_cows_def
        round_liters_def merge_sessions_def)
next
  assume "animal_records db tag = []"
  then show "animal_yield_summary bounds today db tag = Inr (0, 0, 0, [], [], (None, None, None))"
    by (simp add: animal_summary_unfold [OF assms] coalesce0_def sql_sum_def sql_avg_def
        count_distinct_def animal_years_def animal_avg_daily_def since_filter_def
        monthly_liters_def monthly_count_def round_liters_def merge_sessions_def)
qed

theorem empty_scope_summary_witness:
  "date_sub_days (2024, 2, 2) 365 = Inr (2023, 2, 2)
   \<and> farm_records db4 ''G'' = []
   \<and> farm_yield_summary (2024, 2, 2) db4 ''G'' = Inr (0, 0, [], [])
   \<and> animal_records db4 ''C'' = []
   \<and> animal_yield_summary timestamp_ns (2024, 2, 2) db4 ''C'' = Inr (0, 0, 0, [], [], (None, None, None))"
proof -
  have f: "farm_records db4 ''G'' = []" by (simp add: farm_records_def db4_def)
  have a: "animal_records db4 ''C'' = []" by (simp add: animal_records_def db4_def)
  from empty_scope_summary [OF since_2024_02_02, where db = db4 and name = "''G''"
      and tag = "''C''" and bounds = timestamp_ns] f a
  show ?thesis by (simp add: since_2024_02_02)
qed

section \<open>The duration of an animal's records\<close>

text \<open>
  Claim C9 says that the duration of every animal with a record is the span from its
  first to its last record date.  The \<open>try\<close> block computes the span only when
  \<open>pd.to_datetime\<close> parses both dates; otherwise \<open>except Exception\<close> sets the duration to
  the lactation days.  With nanosecond timestamps, two records on 2300-01-02 and
  2300-01-04 have duration 2, not 3.  And whatever the timestamps hold, two records with
  the texts 2024-02-30 and 2024-03-05 have duration 2, where the span is 5 days when the
  first text is read as the day after 2024-02-29.
\<close>

theorem animal_duration_counterexample:
  "animal_yield_summary timestamp_ns (2026, 2, 2) db9_far ''A''
     = Inr (12, 2, 2, [(2300, 12, 2, Some 6)], [((2300, 1), 12, 2)], Some 6, Some 7, Some 5)
   \<and> ymd2ord (2300, 1, 4) - ymd2ord (2300, 1, 2) + 1 = 3
   \<and> animal_yield_summary ((1, 1, 1), (9999, 12, 31)) (2026, 2, 2) db9_feb30 ''A''
     = Inr (12, 2, 2, [(2024, 12, 2, Some 6)], [], Some 6, Some 7, Some 5)
   \<and> ymd2ord (2024, 3, 5) - (ymd2ord (2024, 2, 29) + 1) + 1 = 5"
  by (simp add: agg_eval date_eval db9_far_def db9_feb30_def)

text \<open>
  Claim C9, as the code has it.  For an animal with at least one record, when
  \<open>pd.to_datetime\<close> parses its first and its last record date (both are dates of the
  calendar that a timestamp holds), \<open>duration\<close> is the number of days from the first to
  the last, both included; when one of the two does not parse, \<open>duration\<close> is the number
  of lactation days.  The animal of the second example (5.0 L on 2023-06-01, 7.0 L on
  2023-06-03) has duration 3, 2 lactation days, maximum 7, minimum 5 and average 6.0,
  whatever the day of the computation, when timestamps hold these two days.  The
  hypothesis says that the day 365 days before today exists (\<open>window_start_exists\<close>).
\<close>

theorem animal_duration_span:
  assumes "date_sub_days today 365 = Inr since"
  shows "(animal_records db tag \<noteq> [] \<longrightarrow>
          (\<exists>total days duration df_year df_12mo stats.
             animal_yield_summary bounds today db tag = Inr (total, days, duration, df_year, df_12mo, stats)
             \<and> (to_datetime bounds (Some (Min (record_date ` set (animal_records db tag)))) \<noteq> None
                \<and> to_datetime bounds (Some (Max (record_date ` set (animal_records db tag)))) \<noteq> None
                \<longrightarrow> duration = ymd2ord (Max (record_date ` set (animal_records db tag)))
                               - ymd2ord (Min (record_date ` set (animal_records db tag))) + 1)
             \<and> (to_datetime bounds (Some (Min (record_date ` set (animal_records db tag)))) = None
                \<or> to_datetime bounds (Some (Max (record_date ` set (animal_records db tag)))) = None
                \<longrightarrow> duration = int days
                    \<and> days = count_distinct (map record_date (animal_records db tag)))))
       \<and> (fst bounds \<le> (2023, 6, 1) \<and> (2023, 6, 3) \<le> snd bounds \<longrightarrow>
          (\<exists>total days duration df_year df_12mo avg_daily max_yield min_yield.
             animal_yield_summary bounds today db9 ''A''
               = Inr (total, days, duration, df_year, df_12mo, (avg_daily, max_yield, min_yield))
             \<and> duration = 3 \<and> days = 2
             \<and> max_yield = Some 7 \<and> min_yield = Some 5 \<and> avg_daily = Some 6))"
proof (intro conjI impI)
  let ?lo = "Min (record_date ` set (animal_records db tag))"
  let ?hi = "Max (record_date ` set (animal_records db tag))"
  assume ne: "animal_records db tag \<noteq> []"
  then have "map record_date (animal_records db tag) \<noteq> []" by simp
  from sql_min_Min [OF this] sql_max_Max [OF this]
  have mn: "sql_min (map record_date (animal_records db tag)) = Some ?lo"
    and mx: "sql_max (map record_date (animal_records db tag)) = Some ?hi"
    by simp_all
  note p = to_datetime_cases [of bounds]
  show "\<exists>total days duration df_year df_12mo stats.
             animal_yield_summary bounds today db tag = Inr (total, days, duration, df_year, df_12mo, stats)
             \<and> (to_datetime bounds (Some ?lo) \<noteq> None \<and> to_datetime bounds (Some ?hi) \<noteq> None
                \<longrightarrow> duration = ymd2ord ?hi - ymd2ord ?lo + 1)
             \<and> (to_datetime bounds (Some ?lo) = None \<or> to_datetime bounds (Some ?hi) = None
                \<longrightarrow> duration = int days
                    \<and> days = count_distinct (map record_date (animal_records db tag)))"
    unfolding animal_summary_unfold [OF assms] mn mx
    using p [of ?lo] p [of ?hi]
    by (intro exI conjI refl) (auto split: option.splits)
next
  assume b: "fst bounds \<le> (2023, 6, 1) \<and> (2023, 6, 3) \<le> snd bounds"
  have "((2023, 6, 1) :: date) \<le> (2023, 6, 3)" by simp
  with b have "fst bounds \<le> (2023, 6, 3)" "(2023, 6, 1) \<le> snd bounds"
    by (meson order_trans)+
  with b have d: "to_datetime bounds (Some (2023, 6, 1)) = Some (2023, 6, 1)"
    "to_datetime bounds (Some (2023, 6, 3)) = Some (2023, 6, 3)"
    by (simp_all add: to_datetime_def valid_date_def days_in_month_def DAYS_IN_MONTH_def)
  have mn: "sql_min (map record_date (animal_records db9 ''A'')) = Some (2023, 6, 1)"
    and mx: "sql_max (map record_date (animal_records db9 ''A'')) = Some (2023, 6, 3)"
    by (simp_all add: animal_records_db9)
  have span: "ymd2ord (2023, 6, 3) - ymd2ord (2023, 6, 1) + 1 = 3"
    by (simp add: date_eval)
  show "\<exists>total days duration df_year df_12mo avg_daily max_yield min_yield.
             animal_yield_summary bounds today db9 ''A''
               = Inr (total, days, duration, df_year, df_12mo, (avg_daily, max_yield, min_yield))
             \<and> duration = 3 \<and> days = 2
             \<and> max_yield = Some 7 \<and> min_yield = Some 5 \<and> avg_daily = Some 6"
    unfolding animal_summary_unfold [OF assms] mn mx d option.case prod.case span
    unfolding animal_records_db9
    by (intro exI conjI refl)
       (simp_all add: count_distinct_def sql_avg_def sql_round1_def floor_rat_numeral_div)
qed

theorem animal_duration_span_witness:
  "date_sub_days (2024, 2, 2) 365 = Inr (2023, 2, 2)
   \<and> animal_records db9 ''A'' \<noteq> []
   \<and> to_datetime timestamp_ns (Some (Min (record_date ` set (animal_records db9 ''A'')))) \<noteq> None
   \<and> to_datetime timestamp_ns (Some (Max (record_date ` set (animal_records db9 ''A'')))) \<noteq> None
   \<and> fst timestamp_ns \<le> (2023, 6, 1) \<and> (2023, 6, 3) \<le> snd timestamp_ns
   \<and> animal_yield_summary timestamp_ns (2024, 2, 2) db9 ''A''
       = Inr (12, 2, 3, [(2023, 12, 2, Some 6)], [((2023, 6), 12, 2)], Some 6, Some 7, Some 5)
   \<and> (3 :: int) = ymd2ord (Max (record_date ` set (animal_records db9 ''A'')))
                   - ymd2ord (Min (record_date ` set (animal_records db9 ''A''))) + 1
   \<and> animal_records db9_far ''A'' \<noteq> []
   \<and> to_datetime timestamp_ns (Some (Max (record_date ` set (animal_records db9_far ''A'')))) = None
   \<and> animal_yield_summary timestamp_ns (2024, 2, 2) db9_far ''A''
       = Inr (12, 2, 2, [(2300, 12, 2, Some 6)], [((2300, 1), 12, 2)], Some 6, Some 7, Some 5)
   \<and> (2 :: int) = int (count_distinct (map record_date (animal_records db9_far ''A'')))"
proof -
  have ne: "animal_records db9 ''A'' \<noteq> []" by (simp add: animal_records_db9)
  have lo: "Min (record_date ` set (animal_records db9 ''A'')) = (2023, 6, 1)"
    and hi: "Max (record_date ` set (animal_records db9 ''A'')) = (2023, 6, 3)"
    by (simp_all add: animal_records_db9)
  have p: "to_datetime timestamp_ns (Some (2023, 6, 1)) \<noteq> None"
    "to_datetime timestamp_ns (Some (2023, 6, 3)) \<noteq> None"
    "fst timestamp_ns \<le> (2023, 6, 1)" "(2023, 6, 3) \<le> snd timestamp_ns"
    by (simp_all add: date_eval)
  have p': "to_datetime timestamp_ns (Some (Min (record_date ` set (animal_records db9 ''A'')))) \<noteq> None"
    "to_datetime timestamp_ns (Some (Max (record_date ` set (animal_records db9 ''A'')))) \<noteq> None"
    unfolding lo hi by (rule p)+
  have r: "animal_records db9_far ''A'' =
     [\<lparr>m_ear_tag = ''A'', record_date = (2300, 1, 2), record_year = 2300, yield_value = 5\<rparr>,
      \<lparr>m_ear_tag = ''A'', record_date = (2300, 1, 4), record_year = 2300, yield_value = 7\<rparr>]"
    by (simp add: animal_records_def db9_far_def)
  have ne': "animal_records db9_far ''A'' \<noteq> []" by (simp add: r)
  have hi': "Max (record_date ` set (animal_records db9_far ''A'')) = (2300, 1, 4)"
    by (simp add: r)
  have q: "to_datetime timestamp_ns (Some (2300, 1, 4)) = None"
    by (simp add: date_eval)
  have q': "to_datetime timestamp_ns (Some (Max (record_date ` set (animal_records db9_far ''A'')))) = None"
    unfolding hi' by (rule q)
  have s: "animal_yield_summary timestamp_ns (2024, 2, 2) db9_far ''A''
       = Inr (12, 2, 2, [(2300, 12, 2, Some 6)], [((2300, 1), 12, 2)], Some 6, Some 7, Some 5)"
    by (simp add: agg_eval date_eval db9_far_def)
  from animal_duration_span [OF since_2024_02_02, where db = db9 and tag = "''A''"
      and bounds = timestamp_ns] ne p'
  have a: "(3 :: int) = ymd2ord (Max (record_date ` set (animal_records db9 ''A'')))
                   - ymd2ord (Min (record_date ` set (animal_records db9 ''A''))) + 1"
    unfolding animal_summary_db9 by simp
  from animal_duration_span [OF since_2024_02_02, where db = db9_far and tag = "''A''"
      and bounds = timestamp_ns] ne' q'
  have b: "(2 :: int) = int (count_distinct (map record_date (animal_records db9_far ''A'')))"
    unfolding s by simp
  show ?thesis
    by (intro conjI since_2024_02_02 ne ne' a b s animal_summary_db9 p' q' p(3) p(4))
qed

section \<open>Idempotence of the anonymization mapper\<close>

text \<open>
  Claim C10.  Anonymizing twice is anonymizing once: the two aliases are no keys of the
  table, and every other string passes through unchanged.
\<close>

theorem anonymize_idempotent:
  "anonymize_farm_name U (Some (anonymize_farm_name U name)) = anonymize_farm_name U name
   \<and> map_of PROTECTED_HASH_TO_ALIAS (sha256_lower U (Some ''K-farm'')) = None
   \<and> map_of PROTECTED_HASH_TO_ALIAS (sha256_lower U (Some ''J-farm'')) = None"
proof -
  consider (pass) "anonymize_farm_name U name = or_empty name"
      "map_of PROTECTED_HASH_TO_ALIAS (sha256_lower U name) = None"
    | (K) "anonymize_farm_name U name = ''K-farm''"
    | (J) "anonymize_farm_name U name = ''J-farm''"
    using anonymize_range [of U name] by auto
  then have "anonymize_farm_name U (Some (anonymize_farm_name U name)) = anonymize_farm_name U name"
  proof cases
    case pass
    then show ?thesis
      using anonymize_passthrough [of U "or_empty name"] by (simp add: sha256_lower_or_empty)
  next
    case K
    then show ?thesis using anonymize_passthrough [OF hash_K_farm, of U] by simp
  next
    case J
    then show ?thesis using anonymize_passthrough [OF hash_J_farm, of U] by simp
  qed
  then show ?thesis
    by (intro conjI hash_K_farm hash_J_farm)
qed

theorem anonymize_idempotent_witness:
  "anonymize_farm_name (\<lambda>s. s) (Some ''MAGPANTAY'') = ''K-farm''
   \<and> anonymize_farm_name (\<lambda>s. s) (Some ''K-farm'') = ''K-farm''"
proof -
  have "map lower_char ''MAGPANTAY'' = ''magpantay''" by (simp add: lower_char_def)
  then have a: "anonymize_farm_name (\<lambda>s. s) (Some ''MAGPANTAY'') = ''K-farm''"
    by (rule anonymize_protected_K)
  with anonymize_idempotent [of "\<lambda>s. s" "Some ''MAGPANTAY''"] show ?thesis by simp
qed

end
